theory Spec2Isabelle
  imports Main "HOL-Library.Log_Nat"
begin

section \<open>Python strings\<close>

text \<open>
  A Python \<open>str\<close> is modelled as a \<open>string\<close> whose characters are the code points
  below 256. \<open>str.isspace\<close> holds below 256 exactly for the code points 9 to 13, 28 to 32,
  133 and 160; \<open>str.strip()\<close> and \<open>str.split()\<close> use that class.
\<close>

definition is_space :: "char \<Rightarrow> bool" where
  "is_space c = (of_char c \<in> {9, 10, 11, 12, 13, 28, 29, 30, 31, 32, 133, 160 :: nat})"

text \<open>\<open>s.strip()\<close>\<close>

definition py_strip :: "string \<Rightarrow> string" where
  "py_strip s = rev (dropWhile is_space (rev (dropWhile is_space s)))"

text \<open>\<open>s.split(sep)\<close> for a one-character separator: never empty, \<open>''''\<close> gives \<open>['''']\<close>.\<close>

fun split_on :: "char \<Rightarrow> string \<Rightarrow> string list" where
  "split_on sep [] = [[]]"
| "split_on sep (c # cs) =
     (if c = sep then [] # split_on sep cs
      else (case split_on sep cs of
              w # ws \<Rightarrow> (c # w) # ws
            | [] \<Rightarrow> [[c]]))"

text \<open>\<open>sep.join(xs)\<close>\<close>

fun py_join :: "string \<Rightarrow> string list \<Rightarrow> string" where
  "py_join sep [] = []"
| "py_join sep [x] = x"
| "py_join sep (x # y # ys) = x @ sep @ py_join sep (y # ys)"

text \<open>\<open>list(s)\<close>: the one-character strings of \<open>s\<close>.\<close>

definition py_list :: "string \<Rightarrow> string list" where
  "py_list s = map (\<lambda>c. [c]) s"

section \<open>Topology planner: \<open>parse_gpu_groups\<close> and the port assignment of \<open>main\<close>\<close>

text \<open>
  The body of the \<open>for group in groups\<close> loop of \<open>parse_gpu_groups\<close>, with \<open>result\<close> as
  the accumulator.
\<close>

fun parse_gpu_groups_loop :: "string list \<Rightarrow> string list \<Rightarrow> string list" where
  "parse_gpu_groups_loop [] result = result"
| "parse_gpu_groups_loop (grp # groups) result =
     (let grp = py_strip grp in
      if length grp > 1 \<and> CHR '','' \<notin> set grp
      then parse_gpu_groups_loop groups (result @ [py_join '','' (py_list grp)])
      else parse_gpu_groups_loop groups (result @ [grp]))"

definition parse_gpu_groups :: "string \<Rightarrow> string list" where
  "parse_gpu_groups gpu_str = parse_gpu_groups_loop (split_on CHR '','' gpu_str) []"

text \<open>
  A placement as \<open>main\<close> builds it: the loop \<open>for gpus in GPU_GROUPS\<close> gives the worker
  with index \<open>i\<close> the value \<open>gpus\<close> for \<open>CUDA_VISIBLE_DEVICES\<close> and the port
  \<open>current_port\<close>, which starts at \<open>START_PORT\<close> and is incremented after every worker.
\<close>

record placement =
  index :: nat
  gpu_set :: string
  listen_port :: int

fun plan_loop :: "string list \<Rightarrow> nat \<Rightarrow> int \<Rightarrow> placement list" where
  "plan_loop [] i current_port = []"
| "plan_loop (gpus # rest) i current_port =
     \<lparr>index = i, gpu_set = gpus, listen_port = current_port\<rparr>
       # plan_loop rest (Suc i) (current_port + 1)"

definition plan_placements :: "string \<Rightarrow> int \<Rightarrow> placement list" where
  "plan_placements gpu_str start_port = plan_loop (parse_gpu_groups gpu_str) 0 start_port"

section \<open>Python values used by the metrics poller\<close>

text \<open>The exceptions that the modelled code can raise. All but \<open>KeyboardInterrupt\<close> are
  subclasses of \<open>Exception\<close>.\<close>

datatype py_exception =
  ValueError | OverflowError | IndexError | RequestException | OSError | KeyboardInterrupt

fun is_Exception :: "py_exception \<Rightarrow> bool" where
  "is_Exception KeyboardInterrupt = False"
| "is_Exception _ = True"

text \<open>\<open>s.startswith(p)\<close>\<close>

definition py_startswith :: "string \<Rightarrow> string \<Rightarrow> bool" where
  "py_startswith s p = (take (length p) s = p)"

text \<open>\<open>s.split()\<close>: the maximal runs of non-whitespace characters; \<open>cur\<close> is the run
  being read.\<close>

fun split_ws_loop :: "string \<Rightarrow> string \<Rightarrow> string list" where
  "split_ws_loop cur [] = (if cur = [] then [] else [cur])"
| "split_ws_loop cur (c # cs) =
     (if is_space c
      then (if cur = [] then split_ws_loop [] cs else cur # split_ws_loop [] cs)
      else split_ws_loop (cur @ [c]) cs)"

definition py_split_ws :: "string \<Rightarrow> string list" where
  "py_split_ws s = split_ws_loop [] s"

text \<open>\<open>xs[-1]\<close>\<close>

definition py_last :: "'a list \<Rightarrow> py_exception + 'a" where
  "py_last xs = (if xs = [] then Inl IndexError else Inr (last xs))"

subsection \<open>\<open>float(s)\<close> and \<open>int(x)\<close>\<close>

text \<open>
  A Python float is an IEEE 754 binary64 value: a rational, an infinity or a NaN (the sign of
  zero plays no role here). \<open>float(s)\<close> reads the decimal grammar of the language
  reference (sign, digits with single underscores between them, fraction, exponent,
  \<open>inf\<close>, \<open>infinity\<close> and \<open>nan\<close> in any case) and rounds the exact value to the nearest
  binary64, ties to even; a string outside the grammar raises \<open>ValueError\<close>.
\<close>

datatype py_float = Fin rat | PosInf | NegInf | NaN

definition is_digit :: "char \<Rightarrow> bool" where
  "is_digit c = (c \<in> set ''0123456789'')"

definition digit_val :: "char \<Rightarrow> nat" where
  "digit_val c = of_char c - 48"

fun digitpart :: "string \<Rightarrow> bool" where
  "digitpart [] = False"
| "digitpart [c] = is_digit c"
| "digitpart (c # d # cs) =
     (is_digit c \<and> (if d = CHR ''_'' then digitpart cs else digitpart (d # cs)))"

definition digits_val :: "string \<Rightarrow> nat" where
  "digits_val s = foldl (\<lambda>a c. 10 * a + digit_val c) 0 (filter is_digit s)"

definition py_lower :: "string \<Rightarrow> string" where
  "py_lower s =
     map (\<lambda>c. if (65::nat) \<le> of_char c \<and> of_char c \<le> (90::nat)
              then char_of (of_char c + (32::nat)) else c) s"

definition pow2 :: "int \<Rightarrow> rat" where
  "pow2 k = (if 0 \<le> k then 2 ^ nat k else 1 / 2 ^ nat (- k))"

definition pow10 :: "int \<Rightarrow> rat" where
  "pow10 k = (if 0 \<le> k then 10 ^ nat k else 1 / 10 ^ nat (- k))"

text \<open>For \<open>q > 0\<close>, the \<open>k\<close> with \<open>2 ^ k \<le> q < 2 ^ (k + 1)\<close>.\<close>

definition ilog2 :: "rat \<Rightarrow> int" where
  "ilog2 q =
     (let (a, b) = quotient_of q;
          k = int (floorlog 2 (nat a)) - int (floorlog 2 (nat b))
      in if pow2 k \<le> q then k else k - 1)"

definition round_half_even :: "rat \<Rightarrow> int" where
  "round_half_even x =
     (let f = \<lfloor>x\<rfloor>; r = x - of_int f
      in if r < 1 / 2 then f else if 1 / 2 < r then f + 1 else if even f then f else f + 1)"

definition round_binary64 :: "rat \<Rightarrow> py_float" where
  "round_binary64 q =
     (if q = 0 then Fin 0
      else let a = \<bar>q\<bar>;
               e = max (ilog2 a) (- 1022);
               ulp = pow2 (e - 52);
               v = of_int (round_half_even (a / ulp)) * ulp
           in if pow2 1024 \<le> v then (if q < 0 then NegInf else PosInf)
              else Fin (if q < 0 then - v else v))"

text \<open>The unsigned part of a float literal that is not \<open>inf\<close> or \<open>nan\<close>:
  \<open>[digitpart] "." digitpart | digitpart ["."]\<close>, then an optional exponent.\<close>

definition parse_exponent :: "string \<Rightarrow> int option" where
  "parse_exponent s =
     (case s of
        [] \<Rightarrow> None
      | c # cs \<Rightarrow>
          (let (neg, ds) = (if c = CHR ''-'' then (True, cs)
                            else if c = CHR ''+'' then (False, cs) else (False, s))
           in if digitpart ds
              then Some (if neg then - int (digits_val ds) else int (digits_val ds))
              else None))"

definition parse_floatnumber :: "string \<Rightarrow> rat option" where
  "parse_floatnumber s =
     (let mant = takeWhile (\<lambda>c. c \<noteq> CHR ''e'' \<and> c \<noteq> CHR ''E'') s;
          rest = dropWhile (\<lambda>c. c \<noteq> CHR ''e'' \<and> c \<noteq> CHR ''E'') s;
          ip = takeWhile (\<lambda>c. c \<noteq> CHR ''.'') mant;
          dot = dropWhile (\<lambda>c. c \<noteq> CHR ''.'') mant;
          fp = tl dot;
          mant_ok = (if dot = [] then digitpart ip
                     else if fp = [] then digitpart ip
                     else (ip = [] \<or> digitpart ip) \<and> digitpart fp);
          ex = (if rest = [] then Some 0 else parse_exponent (tl rest))
      in if \<not> mant_ok then None
         else (case ex of
                 None \<Rightarrow> None
               | Some x \<Rightarrow>
                   Some (of_int (int (digits_val (ip @ fp)))
                         * pow10 (x - int (length (filter is_digit fp))))))"

text \<open>
  \<open>float(s)\<close> strips less than \<open>str.strip()\<close>: the ASCII whitespace 9 to 13 and 32, and
  the whitespace above 127 (133 and 160 below 256), which it first turns into spaces; the
  separators 28 to 31 stay and make the string malformed.
\<close>

definition is_float_space :: "char \<Rightarrow> bool" where
  "is_float_space c = (of_char c \<in> {9, 10, 11, 12, 13, 32, 133, 160 :: nat})"

definition float_strip :: "string \<Rightarrow> string" where
  "float_strip s = rev (dropWhile is_float_space (rev (dropWhile is_float_space s)))"

definition py_float_of_str :: "string \<Rightarrow> py_exception + py_float" where
  "py_float_of_str s0 =
     (let s = float_strip s0;
          neg = (s \<noteq> [] \<and> hd s = CHR ''-'');
          body = (if s \<noteq> [] \<and> (hd s = CHR ''-'' \<or> hd s = CHR ''+'') then tl s else s);
          low = py_lower body
      in if low = ''inf'' \<or> low = ''infinity'' then Inr (if neg then NegInf else PosInf)
         else if low = ''nan'' then Inr NaN
         else (case parse_floatnumber body of
                 None \<Rightarrow> Inl ValueError
               | Some q \<Rightarrow> Inr (round_binary64 (if neg then - q else q))))"

text \<open>\<open>int(x)\<close> for a float \<open>x\<close>: truncation towards zero; \<open>OverflowError\<close> on an
  infinity, \<open>ValueError\<close> on a NaN.\<close>

definition py_trunc :: "rat \<Rightarrow> int" where
  "py_trunc q = (if 0 \<le> q then \<lfloor>q\<rfloor> else - \<lfloor>- q\<rfloor>)"

fun py_int_of_float :: "py_float \<Rightarrow> py_exception + int" where
  "py_int_of_float (Fin q) = Inr (py_trunc q)"
| "py_int_of_float PosInf = Inl OverflowError"
| "py_int_of_float NegInf = Inl OverflowError"
| "py_int_of_float NaN = Inl ValueError"

section \<open>Metrics poller: \<open>get_worker_stats\<close>\<close>

text \<open>
  What \<open>requests.get(url, timeout=2)\<close> does: it raises (connection refused, timeout, any
  other transport failure; all are subclasses of \<open>RequestException\<close>), or it returns a
  response with a status code and a body.
\<close>

datatype http_result = TransportError | Response int string

text \<open>A field of the returned dict: an \<open>int\<close>, or the string \<open>'-'\<close> for "unknown".\<close>

datatype stat_value = Count int | Unknown

record worker_stats =
  current_processing :: stat_value
  total_processed :: stat_value

definition unknown_stats :: worker_stats where
  "unknown_stats = \<lparr>current_processing = Unknown, total_processed = Unknown\<rparr>"

text \<open>\<open>int(float(line.split()[-1]))\<close>\<close>

definition int_float_last :: "string \<Rightarrow> py_exception + int" where
  "int_float_last line =
     (case py_last (py_split_ws line) of
        Inl e \<Rightarrow> Inl e
      | Inr tok \<Rightarrow>
          (case py_float_of_str tok of
             Inl e \<Rightarrow> Inl e
           | Inr x \<Rightarrow> py_int_of_float x))"

text \<open>The loop \<open>for line in text.split('\n')\<close>, with the variables \<open>running\<close> and
  \<open>total\<close>.\<close>

fun scan_lines :: "string list \<Rightarrow> int \<Rightarrow> int \<Rightarrow> py_exception + (int \<times> int)" where
  "scan_lines [] running total' = Inr (running, total')"
| "scan_lines (line # lines) running total' =
     (if py_startswith line ''vllm:num_requests_running{''
      then (case int_float_last line of
              Inl e \<Rightarrow> Inl e
            | Inr v \<Rightarrow> scan_lines lines v total')
      else if py_startswith line ''vllm:request_success_total{''
      then (case int_float_last line of
              Inl e \<Rightarrow> Inl e
            | Inr v \<Rightarrow> scan_lines lines running v)
      else scan_lines lines running total')"

text \<open>
  The body of the \<open>try\<close>: it raises, or it returns the dict (\<open>Some\<close>), or it falls through
  to the end of the function (\<open>None\<close>, when the status is not 200).
\<close>

definition get_worker_stats_try :: "http_result \<Rightarrow> py_exception + worker_stats option" where
  "get_worker_stats_try resp =
     (case resp of
        TransportError \<Rightarrow> Inl RequestException
      | Response status_code text \<Rightarrow>
          if status_code = 200
          then (case scan_lines (split_on CHR 0x0A text) 0 0 of
                  Inl e \<Rightarrow> Inl e
                | Inr (running, total') \<Rightarrow>
                    Inr (Some \<lparr>current_processing = Count running,
                               total_processed = Count total'\<rparr>))
          else Inr None)"

text \<open>
  \<open>get_worker_stats(port)\<close>, given what the GET of
  \<open>http://127.0.0.1:{port}/metrics\<close> does. \<open>except Exception: pass\<close> swallows every
  exception that is an \<open>Exception\<close> and lets any other propagate.
\<close>

definition get_worker_stats :: "(int \<Rightarrow> http_result) \<Rightarrow> int \<Rightarrow> py_exception + worker_stats" where
  "get_worker_stats requests_get port =
     (case get_worker_stats_try (requests_get port) of
        Inl e \<Rightarrow> if is_Exception e then Inr unknown_stats else Inl e
      | Inr (Some stats) \<Rightarrow> Inr stats
      | Inr None \<Rightarrow> Inr unknown_stats)"

section \<open>Proxy configuration: \<open>generate_nginx_config\<close>\<close>

text \<open>\<open>str(n)\<close> for an \<open>int\<close>, which is what an f-string field \<open>{port}\<close> renders.\<close>

fun str_nat :: "nat \<Rightarrow> string" where
  "str_nat n =
     (if n < 10 then [''0123456789'' ! n]
      else str_nat (n div 10) @ [''0123456789'' ! (n mod 10)])"

declare str_nat.simps [simp del]

definition py_str :: "int \<Rightarrow> string" where
  "py_str i = (if i < 0 then CHR ''-'' # str_nat (nat (- i)) else str_nat (nat i))"

definition LOG_DIR :: string where
  "LOG_DIR = ''/tmp/vllm_py''"

text \<open>\<open>os.path.join(LOG_DIR, name)\<close> for a relative \<open>name\<close>.\<close>

definition log_path :: "string \<Rightarrow> string" where
  "log_path name = LOG_DIR @ ''/'' @ name"

definition NGINX_CONF :: string where
  "NGINX_CONF = log_path ''nginx_vllm.conf''"

definition NGINX_LOG_OUT :: string where
  "NGINX_LOG_OUT = log_path ''nginx_stdout.log''"

definition NGINX_LOG_ERR :: string where
  "NGINX_LOG_ERR = log_path ''nginx_error.log''"

text \<open>The loop that builds \<open>upstream_block\<close>.\<close>

fun upstream_loop :: "int list \<Rightarrow> string \<Rightarrow> string" where
  "upstream_loop [] upstream_block = upstream_block"
| "upstream_loop (port # port_list) upstream_block =
     upstream_loop port_list
       (upstream_block @ ''        server 127.0.0.1:'' @ py_str port @ '';'' @ [CHR 0x0A])"

text \<open>The text that \<open>generate_nginx_config\<close> writes to \<open>NGINX_CONF\<close>: the f-string
  template, line by line (\<open>CHR 0x0A\<close> is the newline, \<open>CHR 0x22\<close> the double quote).\<close>

definition nginx_config_text :: "int \<Rightarrow> int list \<Rightarrow> string" where
  "nginx_config_text NGINX_PORT port_list =
     [CHR 0x0A]
     @ ''worker_processes auto;'' @ [CHR 0x0A]
     @ ''pid '' @ LOG_DIR @ ''/nginx.pid;'' @ [CHR 0x0A]
     @ ''error_log '' @ NGINX_LOG_ERR @ '' warn;'' @ [CHR 0x0A]
     @ ''events { worker_connections 1024; }'' @ [CHR 0x0A]
     @ ''http {'' @ [CHR 0x0A]
     @ ''    access_log /dev/null;'' @ [CHR 0x0A]
     @ ''    proxy_read_timeout 1200s;'' @ [CHR 0x0A]
     @ ''    upstream vllm_backend {'' @ [CHR 0x0A]
     @ ''        least_conn;'' @ [CHR 0x0A]
     @ upstream_loop port_list [] @ [CHR 0x0A]
     @ ''    }'' @ [CHR 0x0A]
     @ ''    server {'' @ [CHR 0x0A]
     @ ''        listen '' @ py_str NGINX_PORT @ '';'' @ [CHR 0x0A]
     @ ''        location / {'' @ [CHR 0x0A]
     @ ''            proxy_pass http://vllm_backend;'' @ [CHR 0x0A]
     @ ''            proxy_http_version 1.1;'' @ [CHR 0x0A]
     @ ''            proxy_set_header Connection '' @ [CHR 0x22, CHR 0x22] @ '';'' @ [CHR 0x0A]
     @ ''            proxy_buffering off; '' @ [CHR 0x0A]
     @ ''        }'' @ [CHR 0x0A]
     @ ''    }'' @ [CHR 0x0A]
     @ ''}'' @ [CHR 0x0A]"

section \<open>The world outside the program\<close>

text \<open>
  A process handle (a \<open>Popen\<close> object) is named by the number of \<open>Popen\<close> objects
  created before it. Every created object is appended to \<open>RUNNING_PROCESSES\<close> at once, so
  the next handle is the length of that list.
\<close>

type_synonym handle = nat

text \<open>
  What one iteration of the monitor loop observes: whether \<open>KeyboardInterrupt\<close> is raised
  during its \<open>time.sleep(1)\<close>, the value of \<open>time.time()\<close> (a float is a rational; the
  subtraction of the loop is taken as exact), what a GET of each worker's metrics does, and
  what \<open>poll()\<close> returns for each handle (\<open>None\<close> while the process runs, its exit code
  afterwards).
\<close>

record tick =
  interrupted :: bool
  clock :: rat
  requests_get :: "int \<Rightarrow> http_result"
  poll :: "handle \<Rightarrow> int option"

text \<open>
  The rest of the environment: \<open>shutil.which("nginx")\<close>, whether a connection to a port
  of \<open>localhost\<close> is accepted, whether \<open>subprocess.Popen\<close> raises \<open>OSError\<close> for a command, the
  observations of the successive loop iterations, and at interpreter exit what \<open>poll()\<close>
  returns and whether \<open>os.killpg(os.getpgid(pid), 15)\<close> raises \<open>OSError\<close>.
\<close>

record world =
  nginx_installed :: bool
  port_accepts :: "int \<Rightarrow> bool"
  popen_raises :: "string list \<Rightarrow> bool"
  ticks :: "tick list"
  exit_poll :: "handle \<Rightarrow> int option"
  killpg_raises :: "handle \<Rightarrow> bool"

text \<open>The command-line arguments \<open>ARGS\<close>.\<close>

record args =
  arg_model :: string
  arg_gpus :: string
  arg_port :: int
  arg_start_port :: int
  arg_tp :: int
  arg_vllm_bin :: string
  arg_extra_args :: string

definition NGINX_PORT :: "args \<Rightarrow> int" where
  "NGINX_PORT a = arg_port a"

definition START_PORT :: "args \<Rightarrow> int" where
  "START_PORT a = arg_start_port a"

definition GPU_GROUPS :: "args \<Rightarrow> string list" where
  "GPU_GROUPS a = parse_gpu_groups (arg_gpus a)"

definition STATS_INTERVAL :: rat where
  "STATS_INTERVAL = 5"

text \<open>
  The effects of a run, in order: the log directory is cleared and created; a process is
  started (handle, command, the value of \<open>CUDA_VISIBLE_DEVICES\<close> if overridden, the file
  that receives its output); a file is written; the stats table is printed (tagged with the
  \<open>current_time\<close> of the iteration); a crash of the proxy (exit code) or of a worker
  (index and port) is reported; \<open>Stopping...\<close> is printed; cleanup starts, signals the
  process group of a handle with SIGTERM, and completes.
\<close>

datatype event =
    Rmtree string
  | Makedirs string
  | Popen handle "string list" "string option" string
  | WriteFile string string
  | StatsTable rat "(int \<times> stat_value \<times> stat_value) list"
  | NginxCrashed int
  | WorkerCrashed nat int
  | Stopping
  | CleanupStart
  | Killpg handle
  | CleanupDone

text \<open>The global \<open>RUNNING_PROCESSES\<close> and the effects so far.\<close>

record state =
  RUNNING_PROCESSES :: "handle list"
  trace :: "event list"

definition init_state :: state where
  "init_state = \<lparr>RUNNING_PROCESSES = [], trace = []\<rparr>"

definition emit :: "event list \<Rightarrow> state \<Rightarrow> state" where
  "emit evs s = s\<lparr>trace := trace s @ evs\<rparr>"

section \<open>Cleanup: \<open>cleanup_processes\<close>\<close>

text \<open>\<open>os.killpg(os.getpgid(proc.pid), 15)\<close>\<close>

definition killpg :: "world \<Rightarrow> handle \<Rightarrow> state \<Rightarrow> py_exception + state" where
  "killpg w proc s = (if killpg_raises w proc then Inl OSError else Inr (emit [Killpg proc] s))"

text \<open>The loop \<open>for proc in RUNNING_PROCESSES\<close>; \<open>except OSError: pass\<close> swallows
  \<open>OSError\<close> and lets any other exception propagate.\<close>

fun cleanup_loop :: "world \<Rightarrow> handle list \<Rightarrow> state \<Rightarrow> py_exception + state" where
  "cleanup_loop w [] s = Inr s"
| "cleanup_loop w (proc # procs) s =
     (if exit_poll w proc = None
      then (case killpg w proc s of
              Inl e \<Rightarrow> if e = OSError then cleanup_loop w procs s else Inl e
            | Inr s' \<Rightarrow> cleanup_loop w procs s')
      else cleanup_loop w procs s)"

definition cleanup_processes :: "world \<Rightarrow> state \<Rightarrow> py_exception + state" where
  "cleanup_processes w s =
     (case cleanup_loop w (RUNNING_PROCESSES s) (emit [CleanupStart] s) of
        Inl e \<Rightarrow> Inl e
      | Inr s' \<Rightarrow> Inr (emit [CleanupDone] s'))"

section \<open>Preflight: \<open>check_requirements\<close>\<close>

text \<open>How the interpreter leaves \<open>main\<close>: it returns, \<open>sys.exit(code)\<close> is called, or an
  exception propagates; \<open>StillRunning\<close> when the monitor loop has not ended after the
  iterations observed.\<close>

datatype outcome = Returned | SystemExit int | Uncaught py_exception | StillRunning

text \<open>
  \<open>is_port_in_use(port)\<close>: \<open>connect_ex\<close> raises \<open>OverflowError\<close> for a port outside 0 to
  65535 (\<open>argparse\<close> accepts any integer); otherwise it returns 0 exactly when the
  connection is accepted.
\<close>

definition is_port_in_use :: "world \<Rightarrow> int \<Rightarrow> py_exception + bool" where
  "is_port_in_use w port =
     (if port < 0 \<or> 65535 < port then Inl OverflowError else Inr (port_accepts w port))"

text \<open>The loop \<open>for i in range(len(GPU_GROUPS))\<close>. \<open>None\<close>: the checks passed; \<open>Some out\<close>:
  \<open>main\<close> is left with \<open>out\<close>, by \<open>sys.exit(1)\<close> or by the exception of a check.\<close>

fun check_ports_loop :: "world \<Rightarrow> args \<Rightarrow> nat list \<Rightarrow> outcome option" where
  "check_ports_loop w a [] = None"
| "check_ports_loop w a (i # rest) =
     (let port = START_PORT a + int i in
      case is_port_in_use w port of
        Inl e \<Rightarrow> Some (Uncaught e)
      | Inr used \<Rightarrow> if used then Some (SystemExit 1) else check_ports_loop w a rest)"

definition check_requirements :: "world \<Rightarrow> args \<Rightarrow> outcome option" where
  "check_requirements w a =
     (if \<not> nginx_installed w then Some (SystemExit 1)
      else (case is_port_in_use w (NGINX_PORT a) of
              Inl e \<Rightarrow> Some (Uncaught e)
            | Inr used \<Rightarrow>
                if used then Some (SystemExit 1)
                else check_ports_loop w a [0..<length (GPU_GROUPS a)]))"

section \<open>Monitor loop\<close>

text \<open>The loop of \<open>print_stats_table\<close> that fills \<open>rows\<close>; the table is then printed.\<close>

fun stats_rows ::
  "(int \<Rightarrow> http_result) \<Rightarrow> int list \<Rightarrow> (int \<times> stat_value \<times> stat_value) list
     \<Rightarrow> py_exception + (int \<times> stat_value \<times> stat_value) list" where
  "stats_rows get [] rows = Inr rows"
| "stats_rows get (p # worker_ports) rows =
     (case get_worker_stats get p of
        Inl e \<Rightarrow> Inl e
      | Inr stats \<Rightarrow>
          stats_rows get worker_ports
            (rows @ [(p, current_processing stats, total_processed stats)]))"

definition print_stats_table ::
  "(int \<Rightarrow> http_result) \<Rightarrow> int list
     \<Rightarrow> py_exception + (int \<times> stat_value \<times> stat_value) list" where
  "print_stats_table get worker_ports = stats_rows get worker_ports []"

text \<open>
  The loop \<open>for i, proc in enumerate(RUNNING_PROCESSES[:-1])\<close>: the first worker whose
  \<open>poll()\<close> is not \<open>None\<close> is reported and the loop is left by \<open>break\<close>;
  \<open>worker_ports[i]\<close> raises \<open>IndexError\<close> out of range.
\<close>

fun scan_workers :: "tick \<Rightarrow> int list \<Rightarrow> (nat \<times> handle) list \<Rightarrow> py_exception + event list" where
  "scan_workers t worker_ports [] = Inr []"
| "scan_workers t worker_ports ((i, proc) # rest) =
     (if poll t proc \<noteq> None
      then (if i < length worker_ports
            then Inr [WorkerCrashed i (worker_ports ! i)]
            else Inl IndexError)
      else scan_workers t worker_ports rest)"

text \<open>
  How the \<open>while True\<close> loop ends: by \<open>break\<close>, by the \<open>KeyboardInterrupt\<close> that the
  enclosing \<open>try\<close> catches, or by another exception, which propagates out of \<open>main\<close>;
  \<open>Running\<close> says that the loop has not ended after the iterations observed.
\<close>

datatype loop_result = Break | Interrupt | Raise py_exception | Running

fun monitor_loop ::
  "int list \<Rightarrow> handle \<Rightarrow> handle list \<Rightarrow> rat \<Rightarrow> tick list \<Rightarrow> loop_result \<times> event list" where
  "monitor_loop worker_ports nginx_proc procs last_stats_time [] = (Running, [])"
| "monitor_loop worker_ports nginx_proc procs last_stats_time (t # ts) =
     (if interrupted t then (Interrupt, [])
      else
        let current_time = clock t in
        case (if current_time - last_stats_time \<ge> STATS_INTERVAL
              then (case print_stats_table (requests_get t) worker_ports of
                      Inl e \<Rightarrow> Inl e
                    | Inr rows \<Rightarrow> Inr ([StatsTable current_time rows], current_time))
              else Inr ([], last_stats_time)) of
          Inl e \<Rightarrow> (Raise e, [])
        | Inr (evs1, last_stats_time') \<Rightarrow>
            (case poll t nginx_proc of
               Some returncode \<Rightarrow> (Break, evs1 @ [NginxCrashed returncode])
             | None \<Rightarrow>
                 (case scan_workers t worker_ports (enumerate 0 (butlast procs)) of
                    Inl e \<Rightarrow> (Raise e, evs1)
                  | Inr evs2 \<Rightarrow>
                      (case monitor_loop worker_ports nginx_proc procs last_stats_time' ts of
                         (r, evs) \<Rightarrow> (r, evs1 @ evs2 @ evs)))))"

section \<open>\<open>main\<close> and the whole run\<close>

definition worker_cmd :: "args \<Rightarrow> int \<Rightarrow> string list" where
  "worker_cmd a current_port =
     [arg_vllm_bin a, ''serve'', arg_model a, ''-tp'', py_str (arg_tp a),
      ''--port'', py_str current_port]
     @ (if arg_extra_args a \<noteq> [] then py_split_ws (arg_extra_args a) else [])"

definition worker_log :: "int \<Rightarrow> string" where
  "worker_log current_port = log_path (''worker_'' @ py_str current_port @ ''.log'')"

text \<open>
  The loop \<open>for gpus in GPU_GROUPS\<close>. An \<open>OSError\<close> of \<open>Popen\<close> leaves \<open>main\<close>; the
  global list keeps what was appended before.
\<close>

fun spawn_workers ::
  "world \<Rightarrow> args \<Rightarrow> string list \<Rightarrow> int \<Rightarrow> int list \<Rightarrow> state
     \<Rightarrow> state \<times> (py_exception + int list)" where
  "spawn_workers w a [] current_port worker_ports s = (s, Inr worker_ports)"
| "spawn_workers w a (gpus # rest) current_port worker_ports s =
     (let log_file = worker_log current_port;
          cmd = worker_cmd a current_port
      in if popen_raises w cmd then (s, Inl OSError)
         else let proc = length (RUNNING_PROCESSES s);
                  s' = s\<lparr>RUNNING_PROCESSES := RUNNING_PROCESSES s @ [proc],
                         trace := trace s @ [Popen proc cmd (Some gpus) log_file]\<rparr>
              in spawn_workers w a rest (current_port + 1) (worker_ports @ [current_port]) s')"

text \<open>\<open>generate_nginx_config(port_list)\<close> writes the rendered text to \<open>NGINX_CONF\<close>.\<close>

definition generate_nginx_config :: "args \<Rightarrow> int list \<Rightarrow> state \<Rightarrow> state" where
  "generate_nginx_config a port_list s =
     emit [WriteFile NGINX_CONF (nginx_config_text (NGINX_PORT a) port_list)] s"

definition nginx_cmd :: "string list" where
  "nginx_cmd = [''nginx'', ''-c'', NGINX_CONF, ''-g'', ''daemon off;'']"

definition main :: "world \<Rightarrow> args \<Rightarrow> outcome \<times> state" where
  "main w a =
     (case check_requirements w a of
        Some out \<Rightarrow> (out, init_state)
      | None \<Rightarrow>
          (let s0 = emit [Rmtree LOG_DIR, Makedirs LOG_DIR] init_state in
           case spawn_workers w a (GPU_GROUPS a) (START_PORT a) [] s0 of
             (s1, Inl e) \<Rightarrow> (Uncaught e, s1)
           | (s1, Inr worker_ports) \<Rightarrow>
               (let s2 = generate_nginx_config a worker_ports s1 in
                if popen_raises w nginx_cmd then (Uncaught OSError, s2)
                else
                  let nginx_proc = length (RUNNING_PROCESSES s2);
                      s3 = s2\<lparr>RUNNING_PROCESSES := RUNNING_PROCESSES s2 @ [nginx_proc],
                             trace := trace s2 @ [Popen nginx_proc nginx_cmd None NGINX_LOG_OUT]\<rparr>
                  in case monitor_loop worker_ports nginx_proc (RUNNING_PROCESSES s3) 0 (ticks w) of
                       (Break, evs) \<Rightarrow> (Returned, emit evs s3)
                     | (Interrupt, evs) \<Rightarrow> (Returned, emit (evs @ [Stopping]) s3)
                     | (Raise e, evs) \<Rightarrow> (Uncaught e, emit evs s3)
                     | (Running, evs) \<Rightarrow> (StillRunning, emit evs s3))))"

text \<open>
  The whole run: the module registers \<open>cleanup_processes\<close> with \<open>atexit\<close> once, and the
  interpreter calls it once when it exits, however \<open>main\<close> was left. An exception of the
  handler is printed and does not change the exit.
\<close>

definition program :: "world \<Rightarrow> args \<Rightarrow> outcome \<times> state" where
  "program w a =
     (case main w a of
        (StillRunning, s) \<Rightarrow> (StillRunning, s)
      | (out, s) \<Rightarrow>
          (case cleanup_processes w s of
             Inl e \<Rightarrow> (out, s)
           | Inr s' \<Rightarrow> (out, s')))"

section \<open>The rules of the specification, for comparison\<close>

text \<open>
  The parsing rule in the words of the specification: a token of length greater than one
  that contains no comma is split into its characters, which are joined with commas; any
  other token passes through unchanged.
\<close>

definition expand_token :: "string \<Rightarrow> string" where
  "expand_token tok =
     (if length tok > 1 \<and> CHR '','' \<notin> set tok then py_join '','' (py_list tok) else tok)"

text \<open>
  The metrics contract in the words of the specification: a counter line begins with the name
  of the running gauge or of the success counter; the value of a counter is read from the
  last token of its line (of the last such line, if there are several), and is \<open>dflt\<close> when
  the body has no such line.
\<close>

definition running_prefix :: string where
  "running_prefix = ''vllm:num_requests_running{''"

definition success_prefix :: string where
  "success_prefix = ''vllm:request_success_total{''"

definition metric_line :: "string \<Rightarrow> bool" where
  "metric_line line = (py_startswith line running_prefix \<or> py_startswith line success_prefix)"

definition metric_value :: "string \<Rightarrow> int \<Rightarrow> string list \<Rightarrow> int" where
  "metric_value name dflt lines =
     (case filter (\<lambda>l. py_startswith l name) lines of
        [] \<Rightarrow> dflt
      | ms \<Rightarrow> (case int_float_last (last ms) of Inr v \<Rightarrow> v | Inl e \<Rightarrow> 0))"

text \<open>A metrics body with both counters, as a worker serves it.\<close>

definition example_body :: string where
  "example_body =
     ''# TYPE vllm:num_requests_running gauge'' @ [CHR 0x0A]
     @ ''vllm:num_requests_running{...} 3.0'' @ [CHR 0x0A]
     @ ''vllm:request_success_total{...} 128.0'' @ [CHR 0x0A]"

text \<open>
  The rendered configuration as the proxy reads it: the text is split into lines, and a
  directive is a line without the surrounding whitespace. \<open>config_head\<close> and
  \<open>config_tail\<close> are the lines of the template before and after the upstream entries.
\<close>

definition upstream_entry :: "int \<Rightarrow> string" where
  "upstream_entry p = ''        server 127.0.0.1:'' @ py_str p @ '';''"

definition config_lines :: "string \<Rightarrow> string list" where
  "config_lines cfg = split_on CHR 0x0A cfg"

definition directives :: "string \<Rightarrow> string list" where
  "directives cfg = map py_strip (config_lines cfg)"

definition pool_entry :: "int \<Rightarrow> string" where
  "pool_entry p = ''server 127.0.0.1:'' @ py_str p @ '';''"

definition listen_directive :: "int \<Rightarrow> string" where
  "listen_directive p = ''listen '' @ py_str p @ '';''"

definition directives_head :: "string list" where
  "directives_head =
     [[], ''worker_processes auto;'', ''pid /tmp/vllm_py/nginx.pid;'',
      ''error_log /tmp/vllm_py/nginx_error.log warn;'',
      ''events { worker_connections 1024; }'', ''http {'',
      ''access_log /dev/null;'', ''proxy_read_timeout 1200s;'',
      ''upstream vllm_backend {'', ''least_conn;'']"

definition directives_tail :: "int \<Rightarrow> string list" where
  "directives_tail listen =
     [[], ''}'', ''server {'', listen_directive listen,
      ''location / {'', ''proxy_pass http://vllm_backend;'',
      ''proxy_http_version 1.1;'',
      ''proxy_set_header Connection '' @ [CHR 0x22, CHR 0x22] @ '';'',
      ''proxy_buffering off;'', ''}'', ''}'', ''}'', []]"

definition config_head :: "string list" where
  "config_head =
     [[], ''worker_processes auto;'', ''pid /tmp/vllm_py/nginx.pid;'',
      ''error_log /tmp/vllm_py/nginx_error.log warn;'',
      ''events { worker_connections 1024; }'', ''http {'',
      ''    access_log /dev/null;'', ''    proxy_read_timeout 1200s;'',
      ''    upstream vllm_backend {'', ''        least_conn;'']"

definition config_tail :: "int \<Rightarrow> string list" where
  "config_tail listen =
     [[], ''    }'', ''    server {'', ''        listen '' @ py_str listen @ '';'',
      ''        location / {'', ''            proxy_pass http://vllm_backend;'',
      ''            proxy_http_version 1.1;'',
      ''            proxy_set_header Connection '' @ [CHR 0x22, CHR 0x22] @ '';'',
      ''            proxy_buffering off; '', ''        }'', ''    }'', ''}'', []]"

definition unlines :: "string list \<Rightarrow> string" where
  "unlines ls = concat (map (\<lambda>l. l @ [CHR 0x0A]) ls)"

section \<open>Reading a run\<close>

text \<open>
  Projections of the effects of a run: the process starts, the handles started, the files
  written, the times at which the stats table was printed; and the kinds of effects.
\<close>

fun spawns :: "event list \<Rightarrow> event list" where
  "spawns [] = []"
| "spawns (Popen h cmd dev out # evs) = Popen h cmd dev out # spawns evs"
| "spawns (e # evs) = spawns evs"

fun spawn_handles :: "event list \<Rightarrow> handle list" where
  "spawn_handles [] = []"
| "spawn_handles (Popen h cmd dev out # evs) = h # spawn_handles evs"
| "spawn_handles (e # evs) = spawn_handles evs"

fun writes :: "event list \<Rightarrow> event list" where
  "writes [] = []"
| "writes (WriteFile path text # evs) = WriteFile path text # writes evs"
| "writes (e # evs) = writes evs"

fun refresh_times :: "event list \<Rightarrow> rat list" where
  "refresh_times [] = []"
| "refresh_times (StatsTable t rows # evs) = t # refresh_times evs"
| "refresh_times (e # evs) = refresh_times evs"

fun is_worker_report :: "event \<Rightarrow> bool" where
  "is_worker_report (WorkerCrashed i p) = True"
| "is_worker_report _ = False"

fun loop_event :: "event \<Rightarrow> bool" where
  "loop_event (StatsTable t rows) = True"
| "loop_event (NginxCrashed code) = True"
| "loop_event (WorkerCrashed i p) = True"
| "loop_event _ = False"

fun cleanup_event :: "event \<Rightarrow> bool" where
  "cleanup_event CleanupStart = True"
| "cleanup_event (Killpg h) = True"
| "cleanup_event CleanupDone = True"
| "cleanup_event _ = False"

text \<open>Successive refreshes, each at least \<open>STATS_INTERVAL\<close> after the one before, the
  first at least \<open>STATS_INTERVAL\<close> after \<open>prev\<close>.\<close>

fun spaced :: "rat \<Rightarrow> rat list \<Rightarrow> bool" where
  "spaced prev [] = True"
| "spaced prev (t # ts) = (STATS_INTERVAL \<le> t - prev \<and> spaced t ts)"

text \<open>
  The placements of a run, and what \<open>main\<close> does with them: the start of the worker of a
  placement, the effects of the setup before the configuration is written, the writing of
  the configuration, the start of the proxy, the monitor loop as \<open>main\<close> calls it (with
  \<open>last_stats_time = 0\<close>), and the way \<open>main\<close> is left after the loop.
\<close>

definition placements :: "args \<Rightarrow> placement list" where
  "placements a = plan_placements (arg_gpus a) (arg_start_port a)"

definition spawn_event :: "args \<Rightarrow> placement \<Rightarrow> event" where
  "spawn_event a p =
     Popen (index p) (worker_cmd a (listen_port p)) (Some (gpu_set p)) (worker_log (listen_port p))"

definition setup_trace :: "args \<Rightarrow> placement list \<Rightarrow> event list" where
  "setup_trace a ps = [Rmtree LOG_DIR, Makedirs LOG_DIR] @ map (spawn_event a) ps"

definition config_write :: "args \<Rightarrow> event" where
  "config_write a =
     WriteFile NGINX_CONF (nginx_config_text (NGINX_PORT a) (map listen_port (placements a)))"

definition proxy_spawn :: "args \<Rightarrow> event" where
  "proxy_spawn a = Popen (length (placements a)) nginx_cmd None NGINX_LOG_OUT"

definition loop_run :: "world \<Rightarrow> args \<Rightarrow> loop_result \<times> event list" where
  "loop_run w a =
     monitor_loop (map listen_port (placements a)) (length (placements a))
       (map index (placements a) @ [length (placements a)]) 0 (ticks w)"

fun loop_outcome :: "loop_result \<Rightarrow> outcome" where
  "loop_outcome Break = Returned"
| "loop_outcome Interrupt = Returned"
| "loop_outcome (Raise e) = Uncaught e"
| "loop_outcome Running = StillRunning"

section \<open>Example runs\<close>

text \<open>The default arguments of the script, and a machine on which the port of the load
  balancer is taken.\<close>

definition default_args :: args where
  "default_args =
     \<lparr>arg_model = ''Qwen/Qwen3-4B-Instruct-2507'', arg_gpus = ''01,23,45,67'',
      arg_port = 8080, arg_start_port = 8000, arg_tp = 2,
      arg_vllm_bin = ''/home/anh/projects/lighteval/.venv/bin/vllm'',
      arg_extra_args = ''--reasoning-parser qwen3''\<rparr>"

definition busy_port_world :: world where
  "busy_port_world =
     \<lparr>nginx_installed = True, port_accepts = (\<lambda>p. p = 8080),
      popen_raises = (\<lambda>cmd. False), ticks = [],
      exit_poll = (\<lambda>h. None), killpg_raises = (\<lambda>h. False)\<rparr>"

text \<open>An iteration in which the proxy (handle 2) runs and both workers have exited, and an
  iteration that is interrupted.\<close>

definition dead_workers_tick :: tick where
  "dead_workers_tick =
     \<lparr>interrupted = False, clock = 1700000000, requests_get = (\<lambda>p. TransportError),
      poll = (\<lambda>h. if h = 2 then None else Some 1)\<rparr>"

definition interrupt_tick :: tick where
  "interrupt_tick =
     \<lparr>interrupted = True, clock = 1700000001, requests_get = (\<lambda>p. TransportError),
      poll = (\<lambda>h. None)\<rparr>"

text \<open>
  Three single-device workers and the proxy, interrupted in the first iteration of the
  loop: in \<open>interrupted_world\<close> the worker with handle 1 has exited by the time the
  interpreter exits, in \<open>live_world\<close> all four processes still run.
\<close>

definition three_workers_args :: args where
  "three_workers_args =
     \<lparr>arg_model = ''m'', arg_gpus = ''0,1,2'', arg_port = 8080, arg_start_port = 8000,
      arg_tp = 1, arg_vllm_bin = ''vllm'', arg_extra_args = []\<rparr>"

definition interrupted_world :: world where
  "interrupted_world =
     \<lparr>nginx_installed = True, port_accepts = (\<lambda>p. False),
      popen_raises = (\<lambda>cmd. False), ticks = [interrupt_tick],
      exit_poll = (\<lambda>h. if h = 1 then Some 1 else None), killpg_raises = (\<lambda>h. False)\<rparr>"

definition live_world :: world where
  "live_world = interrupted_world\<lparr>exit_poll := (\<lambda>h. None)\<rparr>"

text \<open>The default groups with \<open>--port 70000\<close>, on a machine where the port of the first
  worker is taken.\<close>

definition out_of_range_args :: args where
  "out_of_range_args = default_args\<lparr>arg_port := 70000\<rparr>"

definition busy_worker_world :: world where
  "busy_worker_world = busy_port_world\<lparr>port_accepts := (\<lambda>p. p = 8000)\<rparr>"

text \<open>The three workers and the proxy all running through a first iteration of the loop,
  which is interrupted in the second.\<close>

definition quiet_tick :: tick where
  "quiet_tick =
     \<lparr>interrupted = False, clock = 1700000000, requests_get = (\<lambda>p. TransportError),
      poll = (\<lambda>h. None)\<rparr>"

definition refresh_world :: world where
  "refresh_world = live_world\<lparr>ticks := [quiet_tick, interrupt_tick]\<rparr>"

section \<open>Properties of the topology planner\<close>

lemma parse_gpu_groups_loop_map:
  "parse_gpu_groups_loop groups result = result @ map (\<lambda>g. expand_token (py_strip g)) groups"
  by (induction groups arbitrary: result) (simp_all add: expand_token_def Let_def)

lemma parse_gpu_groups_map:
  "parse_gpu_groups gpu_str = map (\<lambda>g. expand_token (py_strip g)) (split_on CHR '','' gpu_str)"
  by (simp add: parse_gpu_groups_def parse_gpu_groups_loop_map)

lemma plan_loop_enumerate:
  "plan_loop gs i p =
     map (\<lambda>(k, g). \<lparr>index = k, gpu_set = g, listen_port = p + int (k - i)\<rparr>) (enumerate i gs)"
proof (induction gs arbitrary: i p)
  case Nil
  show ?case by simp
next
  case (Cons g gs)
  have "map (\<lambda>(k, g). \<lparr>index = k, gpu_set = g, listen_port = p + 1 + int (k - Suc i)\<rparr>)
          (enumerate (Suc i) gs)
      = map (\<lambda>(k, g). \<lparr>index = k, gpu_set = g, listen_port = p + int (k - i)\<rparr>)
          (enumerate (Suc i) gs)"
    by (rule map_cong) (auto simp: in_set_enumerate_eq Suc_diff_le)
  with Cons show ?case by simp
qed

lemma split_on_nonempty: "split_on c s \<noteq> []"
  by (induction s) (auto split: list.splits)

lemma py_join_nonempty: "length xs > 1 \<Longrightarrow> py_join sep (map (\<lambda>c. [c]) xs) \<noteq> []"
  by (cases xs) (auto simp: neq_Nil_conv)

lemma expand_token_empty: "expand_token t = [] \<longleftrightarrow> t = []"
  using py_join_nonempty [of t] by (auto simp: expand_token_def py_list_def)

lemma enumerate_map_snd:
  "enumerate n (map f xs) = map (\<lambda>(i, x). (i, f x)) (enumerate n xs)"
  by (induction xs arbitrary: n) simp_all

lemma plan_gpu_sets:
  "map gpu_set (plan_placements gpu_str start_port) = parse_gpu_groups gpu_str"
  by (simp add: plan_placements_def plan_loop_enumerate split_def comp_def flip: map_map [of snd])

lemma plan_placements_enumerate:
  "plan_placements gpu_str start_port =
     map (\<lambda>(i, tok). \<lparr>index = i, gpu_set = expand_token (py_strip tok),
                        listen_port = start_port + int i\<rparr>)
       (enumerate 0 (split_on CHR '','' gpu_str))"
  by (simp add: plan_placements_def parse_gpu_groups_map plan_loop_enumerate
      enumerate_map_snd split_def)

text \<open>
  C4, as stated, fails: the code strips the whitespace around a token before it applies the
  rule, so for \<open>"0, 1"\<close> the second group is \<open>"1"\<close>, where the rule of the specification
  applied to the token \<open>" 1"\<close> (length 2, no comma) gives \<open>" ,1"\<close>.
\<close>

theorem planner_unstripped_counterexample:
  "map gpu_set (plan_placements ''0, 1'' 8000)
     \<noteq> map expand_token (split_on CHR '','' ''0, 1'')"
  by (simp add: plan_placements_def parse_gpu_groups_def py_strip_def is_space_def
      py_list_def expand_token_def)

text \<open>
  C4, amended: the planner is a function of the specification string and the start port.
  The placement with index \<open>i\<close> carries the \<open>i\<close>-th comma-separated token, stripped of
  surrounding whitespace and then expanded by the rule of the specification, and the port
  \<open>start_port + i\<close>. \<open>"01,23,45,67"\<close> from port 8000 gives the device lists
  \<open>0,1\<close>, \<open>2,3\<close>, \<open>4,5\<close>, \<open>6,7\<close> on the ports 8000 to 8003, and \<open>"0,1,2,3"\<close> gives four
  single-device placements on the same ports.
\<close>

theorem planner_rule:
  "plan_placements gpu_str start_port =
     map (\<lambda>(i, tok). \<lparr>index = i, gpu_set = expand_token (py_strip tok),
                        listen_port = start_port + int i\<rparr>)
       (enumerate 0 (split_on CHR '','' gpu_str))
   \<and> plan_placements ''01,23,45,67'' 8000 =
      [\<lparr>index = 0, gpu_set = ''0,1'', listen_port = 8000\<rparr>,
       \<lparr>index = 1, gpu_set = ''2,3'', listen_port = 8001\<rparr>,
       \<lparr>index = 2, gpu_set = ''4,5'', listen_port = 8002\<rparr>,
       \<lparr>index = 3, gpu_set = ''6,7'', listen_port = 8003\<rparr>]
   \<and> plan_placements ''0,1,2,3'' 8000 =
      [\<lparr>index = 0, gpu_set = ''0'', listen_port = 8000\<rparr>,
       \<lparr>index = 1, gpu_set = ''1'', listen_port = 8001\<rparr>,
       \<lparr>index = 2, gpu_set = ''2'', listen_port = 8002\<rparr>,
       \<lparr>index = 3, gpu_set = ''3'', listen_port = 8003\<rparr>]"
proof (intro conjI)
  show "plan_placements gpu_str start_port =
     map (\<lambda>(i, tok). \<lparr>index = i, gpu_set = expand_token (py_strip tok),
                        listen_port = start_port + int i\<rparr>)
       (enumerate 0 (split_on CHR '','' gpu_str))"
    by (rule plan_placements_enumerate)
qed (simp_all add: plan_placements_def parse_gpu_groups_def py_strip_def is_space_def
      py_list_def)

text \<open>
  C5, as stated, fails: no path of the planner raises. For \<open>"01,,23"\<close> it returns three
  placements, the second with an empty device list.
\<close>

theorem planner_empty_group_counterexample:
  "[] \<in> set (split_on CHR '','' ''01,,23'')
   \<and> plan_placements ''01,,23'' 8000 =
      [\<lparr>index = 0, gpu_set = ''0,1'', listen_port = 8000\<rparr>,
       \<lparr>index = 1, gpu_set = [], listen_port = 8001\<rparr>,
       \<lparr>index = 2, gpu_set = ''2,3'', listen_port = 8002\<rparr>]"
  by (simp add: plan_placements_def parse_gpu_groups_def py_strip_def is_space_def py_list_def)

text \<open>
  C5, amended: the planner never fails. For every specification string it returns one
  placement per comma-separated token, at least one, and the placements with an empty
  device list are as many as the tokens that are empty or whitespace only.
\<close>

theorem planner_total:
  "plan_placements gpu_str start_port \<noteq> []
   \<and> length (plan_placements gpu_str start_port) = length (split_on CHR '','' gpu_str)
   \<and> length (filter (\<lambda>p. gpu_set p = []) (plan_placements gpu_str start_port))
       = length (filter (\<lambda>tok. py_strip tok = []) (split_on CHR '','' gpu_str))"
proof -
  have len: "length (plan_placements gpu_str start_port) = length (split_on CHR '','' gpu_str)"
    using arg_cong [OF plan_gpu_sets [of gpu_str start_port], of length]
    by (simp add: parse_gpu_groups_map)
  have "length (filter (\<lambda>p. gpu_set p = []) (plan_placements gpu_str start_port))
      = length (filter (\<lambda>g. g = []) (map gpu_set (plan_placements gpu_str start_port)))"
    by (simp add: comp_def)
  also have "\<dots> = length (filter (\<lambda>tok. py_strip tok = []) (split_on CHR '','' gpu_str))"
    unfolding plan_gpu_sets parse_gpu_groups_map
    by (simp add: comp_def expand_token_empty)
  finally show ?thesis
    using len split_on_nonempty [of "CHR '',''" gpu_str] by auto
qed

section \<open>Properties of the metrics poller\<close>

lemma py_startswith_append: "py_startswith l (a @ b) \<Longrightarrow> py_startswith l a"
proof -
  assume "py_startswith l (a @ b)"
  then have "take (length a) (take (length a + length b) l) = take (length a) (a @ b)"
    by (simp add: py_startswith_def del: take_take)
  then show ?thesis by (simp add: py_startswith_def min_def)
qed

lemma prefixes_disjoint:
  "py_startswith l ''vllm:num_requests_running{'' \<Longrightarrow> \<not> py_startswith l ''vllm:request_success_total{''"
proof
  assume a: "py_startswith l ''vllm:num_requests_running{''" and b: "py_startswith l ''vllm:request_success_total{''"
  from a have "py_startswith l ''vllm:n''"
    using py_startswith_append [of l "''vllm:n''" "''um_requests_running{''"] by simp
  moreover from b have "py_startswith l ''vllm:r''"
    using py_startswith_append [of l "''vllm:r''" "''equest_success_total{''"] by simp
  ultimately show False by (simp add: py_startswith_def)
qed

lemma metric_value_Cons:
  "metric_value name d (l # ls) =
     metric_value name
       (if py_startswith l name then (case int_float_last l of Inr v \<Rightarrow> v | Inl e \<Rightarrow> 0) else d) ls"
  by (simp add: metric_value_def split: list.splits)

lemma py_int_of_float_Exception: "py_int_of_float x = Inl e \<Longrightarrow> is_Exception e"
  by (cases x) auto

lemma py_float_of_str_Exception: "py_float_of_str s = Inl e \<Longrightarrow> is_Exception e"
  by (auto simp: py_float_of_str_def Let_def split: if_splits option.splits)

lemma int_float_last_Exception: "int_float_last line = Inl e \<Longrightarrow> is_Exception e"
  by (auto simp: int_float_last_def py_last_def split: sum.splits if_splits
      dest: py_int_of_float_Exception py_float_of_str_Exception)

lemma scan_lines_Exception: "scan_lines ls r t = Inl e \<Longrightarrow> is_Exception e"
  by (induction ls arbitrary: r t)
     (auto split: if_splits sum.splits dest: int_float_last_Exception)

lemma get_worker_stats_try_Exception: "get_worker_stats_try resp = Inl e \<Longrightarrow> is_Exception e"
  by (auto simp: get_worker_stats_try_def split: http_result.splits if_splits sum.splits
      dest: scan_lines_Exception)

lemma get_worker_stats_Inr: "\<exists>stats. get_worker_stats get p = Inr stats"
  by (auto simp: get_worker_stats_def split: sum.splits option.splits dest: get_worker_stats_try_Exception)

lemma scan_lines_fails:
  "\<exists>line\<in>set ls. metric_line line \<and> isl (int_float_last line) \<Longrightarrow> isl (scan_lines ls r t)"
  by (induction ls arbitrary: r t)
     (auto simp: metric_line_def running_prefix_def success_prefix_def split: sum.splits)

lemma scan_lines_ok:
  "\<forall>line\<in>set ls. metric_line line \<longrightarrow> \<not> isl (int_float_last line) \<Longrightarrow>
   scan_lines ls r t = Inr (metric_value running_prefix r ls, metric_value success_prefix t ls)"
proof (induction ls arbitrary: r t)
  case Nil
  show ?case by (simp add: metric_value_def)
next
  case (Cons l ls)
  then have IH: "\<And>r t. scan_lines ls r t
      = Inr (metric_value running_prefix r ls, metric_value success_prefix t ls)"
    by simp
  from Cons.prems have ok: "metric_line l \<Longrightarrow> \<exists>v. int_float_last l = Inr v"
    by (cases "int_float_last l") auto
  show ?case
  proof (cases "py_startswith l ''vllm:num_requests_running{''")
    case True
    with ok obtain v where v: "int_float_last l = Inr v"
      by (auto simp: metric_line_def running_prefix_def)
    from True have "\<not> py_startswith l ''vllm:request_success_total{''"
      by (rule prefixes_disjoint)
    with True v show ?thesis
      by (simp add: IH metric_value_Cons running_prefix_def success_prefix_def)
  next
    case False
    show ?thesis
    proof (cases "py_startswith l ''vllm:request_success_total{''")
      case True
      with ok obtain v where v: "int_float_last l = Inr v"
        by (auto simp: metric_line_def success_prefix_def)
      with True False show ?thesis
        by (simp add: IH metric_value_Cons running_prefix_def success_prefix_def)
    next
      case no: False
      with False show ?thesis
        by (simp add: IH metric_value_Cons running_prefix_def success_prefix_def)
    qed
  qed
qed

text \<open>
  C3: \<open>get_worker_stats\<close> never raises. A transport error, a status other than 200, and a
  200 body with a counter line whose last token does not convert (\<open>float\<close> or \<open>int\<close>
  raises) all give \<open>{current_processing: '-', total_processed: '-'}\<close>.
\<close>

theorem poll_never_raises:
  "(\<exists>stats. get_worker_stats get p = Inr stats)
   \<and> (get p = TransportError \<longrightarrow> get_worker_stats get p = Inr unknown_stats)
   \<and> (\<forall>code body. get p = Response code body \<and> code \<noteq> 200
         \<longrightarrow> get_worker_stats get p = Inr unknown_stats)
   \<and> (\<forall>body. get p = Response 200 body
          \<and> (\<exists>line\<in>set (split_on CHR 0x0A body). metric_line line \<and> isl (int_float_last line))
         \<longrightarrow> get_worker_stats get p = Inr unknown_stats)"
proof (intro conjI allI impI)
  show "\<exists>stats. get_worker_stats get p = Inr stats" by (rule get_worker_stats_Inr)
next
  assume "get p = TransportError"
  then show "get_worker_stats get p = Inr unknown_stats"
    by (simp add: get_worker_stats_def get_worker_stats_try_def)
next
  fix code body assume "get p = Response code body \<and> code \<noteq> 200"
  then show "get_worker_stats get p = Inr unknown_stats"
    by (simp add: get_worker_stats_def get_worker_stats_try_def)
next
  fix body
  assume a: "get p = Response 200 body
          \<and> (\<exists>line\<in>set (split_on CHR 0x0A body). metric_line line \<and> isl (int_float_last line))"
  then have "isl (scan_lines (split_on CHR 0x0A body) 0 0)"
    using scan_lines_fails by blast
  then obtain e where e: "scan_lines (split_on CHR 0x0A body) 0 0 = Inl e"
    by (cases "scan_lines (split_on CHR 0x0A body) 0 0") auto
  then have "is_Exception e" by (rule scan_lines_Exception)
  with a e show "get_worker_stats get p = Inr unknown_stats"
    by (simp add: get_worker_stats_def get_worker_stats_try_def)
qed

theorem poll_never_raises_witness:
  "get_worker_stats (\<lambda>p. TransportError) 8000 = Inr unknown_stats
   \<and> get_worker_stats (\<lambda>p. Response 503 ''Service Unavailable'') 8000 = Inr unknown_stats
   \<and> get_worker_stats (\<lambda>p. Response 200 ''vllm:num_requests_running{} x'') 8000 = Inr unknown_stats"
proof (intro conjI)
  show "get_worker_stats (\<lambda>p. TransportError) 8000 = Inr unknown_stats"
    using poll_never_raises [of "\<lambda>p. TransportError" 8000] by simp
  show "get_worker_stats (\<lambda>p. Response 503 ''Service Unavailable'') 8000 = Inr unknown_stats"
    using poll_never_raises [of "\<lambda>p. Response 503 ''Service Unavailable''" 8000] by simp
  have "metric_line ''vllm:num_requests_running{} x''"
    by (simp add: metric_line_def running_prefix_def py_startswith_def)
  moreover have "isl (int_float_last ''vllm:num_requests_running{} x'')"
    by code_simp
  ultimately show "get_worker_stats (\<lambda>p. Response 200 ''vllm:num_requests_running{} x'') 8000 = Inr unknown_stats"
    using poll_never_raises [of "\<lambda>p. Response 200 ''vllm:num_requests_running{} x''" 8000] by simp
qed


lemma get_worker_stats_ok:
  assumes "get p = Response 200 body"
    and "\<forall>line\<in>set (split_on CHR 0x0A body). metric_line line \<longrightarrow> \<not> isl (int_float_last line)"
  shows "get_worker_stats get p =
      Inr \<lparr>current_processing = Count (metric_value running_prefix 0 (split_on CHR 0x0A body)),
           total_processed = Count (metric_value success_prefix 0 (split_on CHR 0x0A body))\<rparr>"
  using assms(1) scan_lines_ok [OF assms(2), of 0 0]
  by (simp add: get_worker_stats_def get_worker_stats_try_def)

lemma metric_value_absent:
  "\<forall>line\<in>set ls. \<not> py_startswith line name \<Longrightarrow> metric_value name d ls = d"
  by (simp add: metric_value_def filter_False)

text \<open>
  C8, amended: for a 200 body in which the last token of every counter line converts,
  \<open>get_worker_stats\<close> returns for each field the value of its counter line,
  \<open>int(float(token))\<close> of the last token, and 0 for a field whose line is absent.
\<close>

theorem poll_success:
  assumes "get p = Response 200 body"
    and "\<forall>line\<in>set (split_on CHR 0x0A body). metric_line line \<longrightarrow> \<not> isl (int_float_last line)"
  shows "get_worker_stats get p =
      Inr \<lparr>current_processing = Count (metric_value running_prefix 0 (split_on CHR 0x0A body)),
           total_processed = Count (metric_value success_prefix 0 (split_on CHR 0x0A body))\<rparr>
    \<and> ((\<forall>line\<in>set (split_on CHR 0x0A body). \<not> py_startswith line running_prefix)
          \<longrightarrow> metric_value running_prefix 0 (split_on CHR 0x0A body) = 0)
    \<and> ((\<forall>line\<in>set (split_on CHR 0x0A body). \<not> py_startswith line success_prefix)
          \<longrightarrow> metric_value success_prefix 0 (split_on CHR 0x0A body) = 0)"
  using get_worker_stats_ok [of get p body, OF assms] metric_value_absent by blast

lemma example_lines:
  "split_on CHR 0x0A example_body =
     [''# TYPE vllm:num_requests_running gauge'', ''vllm:num_requests_running{...} 3.0'',
      ''vllm:request_success_total{...} 128.0'', []]"
  by (simp add: example_body_def)

lemma example_running_value: "int_float_last ''vllm:num_requests_running{...} 3.0'' = Inr 3"
  by code_simp

lemma example_success_value: "int_float_last ''vllm:request_success_total{...} 128.0'' = Inr 128"
  by code_simp

theorem poll_success_witness:
  "get_worker_stats (\<lambda>p. Response 200 example_body) 8000 =
      Inr \<lparr>current_processing = Count 3, total_processed = Count 128\<rparr>
   \<and> get_worker_stats (\<lambda>p. Response 200 ''# no counters yet'') 8000 =
      Inr \<lparr>current_processing = Count 0, total_processed = Count 0\<rparr>"
proof
  have ok: "\<forall>line\<in>set (split_on CHR 0x0A example_body).
      metric_line line \<longrightarrow> \<not> isl (int_float_last line)"
    by (simp add: example_lines example_running_value example_success_value metric_line_def running_prefix_def
        success_prefix_def py_startswith_def)
  have "metric_value running_prefix 0 (split_on CHR 0x0A example_body) = 3"
    by (simp add: example_lines metric_value_def running_prefix_def py_startswith_def example_running_value)
  moreover have "metric_value success_prefix 0 (split_on CHR 0x0A example_body) = 128"
    by (simp add: example_lines metric_value_def success_prefix_def py_startswith_def example_success_value)
  ultimately show "get_worker_stats (\<lambda>p. Response 200 example_body) 8000 =
      Inr \<lparr>current_processing = Count 3, total_processed = Count 128\<rparr>"
    using poll_success [of "\<lambda>p. Response 200 example_body" 8000 example_body, OF refl ok]
    by simp
next
  have ok: "\<forall>line\<in>set (split_on CHR 0x0A ''# no counters yet'').
      metric_line line \<longrightarrow> \<not> isl (int_float_last line)"
    by (simp add: metric_line_def running_prefix_def success_prefix_def py_startswith_def)
  have "\<forall>line\<in>set (split_on CHR 0x0A ''# no counters yet''). \<not> py_startswith line running_prefix"
    by (simp add: running_prefix_def py_startswith_def)
  moreover have "\<forall>line\<in>set (split_on CHR 0x0A ''# no counters yet''). \<not> py_startswith line success_prefix"
    by (simp add: success_prefix_def py_startswith_def)
  ultimately show "get_worker_stats (\<lambda>p. Response 200 ''# no counters yet'') 8000 =
      Inr \<lparr>current_processing = Count 0, total_processed = Count 0\<rparr>"
    using poll_success [of "\<lambda>p. Response 200 ''# no counters yet''" 8000 "''# no counters yet''", OF refl ok]
    by simp
qed

text \<open>
  C8, as stated, fails: a 200 body whose running line does not convert and which has no
  success line gives \<open>'-'\<close> for \<open>total_processed\<close>, not 0.
\<close>

theorem poll_absent_line_counterexample:
  "filter (\<lambda>line. py_startswith line success_prefix)
     (split_on CHR 0x0A ''vllm:num_requests_running{...} nan'') = []
   \<and> get_worker_stats (\<lambda>p. Response 200 ''vllm:num_requests_running{...} nan'') 8000 =
      Inr \<lparr>current_processing = Unknown, total_processed = Unknown\<rparr>"
proof
  show "filter (\<lambda>line. py_startswith line success_prefix)
     (split_on CHR 0x0A ''vllm:num_requests_running{...} nan'') = []"
    by (simp add: success_prefix_def py_startswith_def)
  have "int_float_last ''vllm:num_requests_running{...} nan'' = Inl ValueError"
    by code_simp
  then show "get_worker_stats (\<lambda>p. Response 200 ''vllm:num_requests_running{...} nan'') 8000 =
      Inr \<lparr>current_processing = Unknown, total_processed = Unknown\<rparr>"
    by (simp add: get_worker_stats_def get_worker_stats_try_def py_startswith_def unknown_stats_def)
qed

section \<open>Properties of the proxy configuration\<close>

lemma digit_char: "k < 10 \<Longrightarrow> is_digit (''0123456789'' ! k)"
  unfolding is_digit_def by (rule nth_mem) simp

lemma str_nat_digits: "c \<in> set (str_nat n) \<Longrightarrow> is_digit c"
proof (induction n arbitrary: c rule: str_nat.induct)
  case (1 n)
  show ?case
  proof (cases "n < 10")
    case True
    with 1(2) show ?thesis by (subst (asm) str_nat.simps) (simp add: digit_char)
  next
    case False
    with 1(2) have "c \<in> set (str_nat (n div 10)) \<or> c = ''0123456789'' ! (n mod 10)"
      by (subst (asm) str_nat.simps) auto
    with 1(1) [OF False] show ?thesis using digit_char [of "n mod 10"] by auto
  qed
qed

lemma is_digit_not_nl: "is_digit c \<Longrightarrow> c \<noteq> CHR 0x0A"
  by (auto simp: is_digit_def)

lemma is_digit_not_space: "is_digit c \<Longrightarrow> \<not> is_space c"
  by (auto simp: is_digit_def is_space_def)

lemma py_str_chars: "c \<in> set (py_str i) \<Longrightarrow> c = CHR ''-'' \<or> is_digit c"
  by (auto simp: py_str_def dest: str_nat_digits split: if_splits)

lemma py_str_no_nl: "CHR 0x0A \<notin> set (py_str i)"
  using py_str_chars [of "CHR 0x0A" i] is_digit_not_nl by auto

lemma py_str_no_space: "c \<in> set (py_str i) \<Longrightarrow> \<not> is_space c"
  using py_str_chars [of c i] is_digit_not_space [of c] by (auto simp: is_space_def)

lemma split_on_line: "sep \<notin> set a \<Longrightarrow> split_on sep (a @ sep # b) = a # split_on sep b"
  by (induction a) (auto split: list.splits)

lemma upstream_loop_concat:
  "upstream_loop ports acc = acc @ concat (map (\<lambda>p. upstream_entry p @ [CHR 0x0A]) ports)"
  by (induction ports arbitrary: acc) (simp_all add: upstream_entry_def)

lemma split_on_unlines:
  "\<forall>l\<in>set ls. CHR 0x0A \<notin> set l \<Longrightarrow>
     split_on CHR 0x0A (unlines ls @ rest) = ls @ split_on CHR 0x0A rest"
  by (induction ls) (simp_all add: unlines_def split_on_line)

lemma text_unlines:
  "nginx_config_text listen ports =
     unlines (config_head @ map upstream_entry ports @ butlast (config_tail listen))"
  unfolding nginx_config_text_def upstream_loop_concat LOG_DIR_def NGINX_LOG_ERR_def log_path_def
     unlines_def config_head_def config_tail_def
  by (simp add: comp_def upstream_entry_def)

lemma upstream_entry_no_nl: "CHR 0x0A \<notin> set (upstream_entry p)"
  using py_str_no_nl [of p] by (simp add: upstream_entry_def)

lemma config_head_no_nl: "\<forall>l\<in>set config_head. CHR 0x0A \<notin> set l"
  by (simp add: config_head_def)

lemma config_tail_no_nl: "\<forall>l\<in>set (config_tail listen). CHR 0x0A \<notin> set l"
  using py_str_no_nl [of listen] by (simp add: config_tail_def)

lemma config_lines_eq:
  "config_lines (nginx_config_text listen ports)
     = config_head @ map upstream_entry ports @ config_tail listen"
proof -
  let ?ls = "config_head @ map upstream_entry ports @ butlast (config_tail listen)"
  have "\<forall>l\<in>set ?ls. CHR 0x0A \<notin> set l"
    using config_head_no_nl config_tail_no_nl [of listen] upstream_entry_no_nl
    by (auto dest: in_set_butlastD)
  then have "split_on CHR 0x0A (unlines ?ls @ []) = ?ls @ split_on CHR 0x0A []"
    by (rule split_on_unlines)
  moreover have "butlast (config_tail listen) @ [[]] = config_tail listen"
    by (simp add: config_tail_def)
  ultimately show ?thesis
    by (simp add: config_lines_def text_unlines)
qed

lemma strip_entry: "py_strip (upstream_entry p) = pool_entry p"
  by (simp add: py_strip_def upstream_entry_def pool_entry_def is_space_def)

lemma strip_head: "map py_strip config_head = directives_head"
  by (simp add: config_head_def directives_head_def py_strip_def is_space_def)

lemma strip_tail: "map py_strip (config_tail listen) = directives_tail listen"
  by (simp add: config_tail_def directives_tail_def listen_directive_def py_strip_def is_space_def)

lemma directives_eq:
  "directives (nginx_config_text listen ports)
     = directives_head @ map pool_entry ports @ directives_tail listen"
  by (simp add: directives_def config_lines_eq strip_head strip_tail strip_entry comp_def)

lemma filter_pool_all:
  "filter (\<lambda>l. py_startswith l ''server 127.0.0.1:'') (map pool_entry ports) = map pool_entry ports"
  by (induction ports) (simp_all add: pool_entry_def py_startswith_def)

lemma filter_pool_none:
  "(\<And>x. \<not> py_startswith (''server 127.0.0.1:'' @ x) d) \<Longrightarrow>
     filter (\<lambda>l. py_startswith l d) (map pool_entry ports) = []"
  by (induction ports) (simp_all add: pool_entry_def)

lemma py_str_8000: "py_str 8000 = ''8000''" "py_str 8001 = ''8001''" "py_str 8080 = ''8080''"
  by (simp_all add: py_str_def str_nat.simps)

text \<open>
  C7: for every list of worker ports and every listen port, the directives of the rendered
  configuration are the fixed head (with the read timeout of 1200s, the one upstream pool
  and its \<open>least_conn\<close> directive), one \<open>server 127.0.0.1:PORT;\<close> entry per worker port
  in input order, and the fixed tail with the one virtual server that listens on the listen
  port and passes location \<open>/\<close> to the pool with an empty \<open>Connection\<close> header and
  buffering off. The entries of the pool are exactly these, and there is one \<open>upstream\<close>,
  one \<open>server\<close> block and one \<open>listen\<close> directive. For the ports 8000 and 8001 and the
  listen port 8080 the pool has the two entries in that order and the server listens on
  8080.
\<close>

theorem nginx_config_structure:
  "directives (nginx_config_text listen ports)
     = directives_head @ map pool_entry ports @ directives_tail listen
   \<and> filter (\<lambda>l. py_startswith l ''server 127.0.0.1:'') (directives (nginx_config_text listen ports))
       = map pool_entry ports
   \<and> filter (\<lambda>l. py_startswith l ''upstream '') (directives (nginx_config_text listen ports))
       = [''upstream vllm_backend {'']
   \<and> filter (\<lambda>l. py_startswith l ''server {'') (directives (nginx_config_text listen ports))
       = [''server {'']
   \<and> filter (\<lambda>l. py_startswith l ''listen '') (directives (nginx_config_text listen ports))
       = [listen_directive listen]
   \<and> directives (nginx_config_text 8080 [8000, 8001])
       = directives_head @ [''server 127.0.0.1:8000;'', ''server 127.0.0.1:8001;'']
         @ [[], ''}'', ''server {'', ''listen 8080;'',
            ''location / {'', ''proxy_pass http://vllm_backend;'', ''proxy_http_version 1.1;'',
            ''proxy_set_header Connection '' @ [CHR 0x22, CHR 0x22] @ '';'',
            ''proxy_buffering off;'', ''}'', ''}'', ''}'', []]"
proof (intro conjI)
  show "directives (nginx_config_text listen ports)
     = directives_head @ map pool_entry ports @ directives_tail listen"
    by (rule directives_eq)
  show "filter (\<lambda>l. py_startswith l ''server 127.0.0.1:'') (directives (nginx_config_text listen ports))
       = map pool_entry ports"
    unfolding directives_eq filter_append filter_pool_all
    by (simp add: directives_head_def directives_tail_def listen_directive_def py_startswith_def)
  show "filter (\<lambda>l. py_startswith l ''upstream '') (directives (nginx_config_text listen ports))
       = [''upstream vllm_backend {'']"
    unfolding directives_eq filter_append
    by (subst filter_pool_none)
       (simp_all add: directives_head_def directives_tail_def listen_directive_def py_startswith_def)
  show "filter (\<lambda>l. py_startswith l ''server {'') (directives (nginx_config_text listen ports))
       = [''server {'']"
    unfolding directives_eq filter_append
    by (subst filter_pool_none)
       (simp_all add: directives_head_def directives_tail_def listen_directive_def py_startswith_def)
  show "filter (\<lambda>l. py_startswith l ''listen '') (directives (nginx_config_text listen ports))
       = [listen_directive listen]"
    unfolding directives_eq filter_append
    by (subst filter_pool_none)
       (simp_all add: directives_head_def directives_tail_def listen_directive_def py_startswith_def)
  show "directives (nginx_config_text 8080 [8000, 8001])
       = directives_head @ [''server 127.0.0.1:8000;'', ''server 127.0.0.1:8001;'']
         @ [[], ''}'', ''server {'', ''listen 8080;'',
            ''location / {'', ''proxy_pass http://vllm_backend;'', ''proxy_http_version 1.1;'',
            ''proxy_set_header Connection '' @ [CHR 0x22, CHR 0x22] @ '';'',
            ''proxy_buffering off;'', ''}'', ''}'', ''}'', []]"
    unfolding directives_eq
    by (simp add: pool_entry_def directives_tail_def listen_directive_def py_str_8000)
qed

section \<open>Properties of the monitor loop, of \<open>main\<close> and of the cleanup\<close>

lemma stats_rows_Inr:
  "\<exists>rows'. stats_rows get ps rows = Inr rows' \<and> map fst rows' = map fst rows @ ps"
proof (induction ps arbitrary: rows)
  case Nil
  show ?case by simp
next
  case (Cons p ps)
  obtain stats where "get_worker_stats get p = Inr stats"
    using get_worker_stats_Inr by blast
  then show ?case
    using Cons [of "rows @ [(p, current_processing stats, total_processed stats)]"] by simp
qed

lemma print_stats_table_Inr:
  "\<exists>rows. print_stats_table get ps = Inr rows \<and> map fst rows = ps"
  using stats_rows_Inr [of get ps "[]"] by (simp add: print_stats_table_def)

lemma scan_workers_reports:
  "\<forall>(i, proc)\<in>set xs. i < length worker_ports \<Longrightarrow>
   \<exists>evs. scan_workers t worker_ports xs = Inr evs \<and> length evs \<le> 1
      \<and> length (filter is_worker_report evs) = length evs"
  by (induction xs) auto

lemma scan_workers_at_most_one:
  "scan_workers t worker_ports xs = Inr evs \<Longrightarrow> length evs \<le> 1"
  by (induction xs) (auto split: if_splits)

lemma enumerate_butlast_bound:
  "length procs = Suc (length worker_ports) \<Longrightarrow>
   \<forall>(i, proc)\<in>set (enumerate 0 (butlast procs)). i < length worker_ports"
  by (auto simp: in_set_enumerate_eq)

text \<open>One iteration that is neither interrupted nor sees the proxy dead.\<close>

lemma monitor_loop_step:
  assumes len: "length procs = Suc (length worker_ports)"
    and quiet: "\<not> interrupted t" "poll t nginx_proc = None"
  shows "\<exists>evs1 evs2 lst'. 
      monitor_loop worker_ports nginx_proc procs lst (t # ts) =
        (fst (monitor_loop worker_ports nginx_proc procs lst' ts),
         evs1 @ evs2 @ snd (monitor_loop worker_ports nginx_proc procs lst' ts))
      \<and> filter is_worker_report evs1 = [] \<and> length evs2 \<le> 1"
proof -
  obtain rows where rows: "print_stats_table (requests_get t) worker_ports = Inr rows"
    using print_stats_table_Inr by blast
  obtain evs2 where evs2: "scan_workers t worker_ports (enumerate 0 (butlast procs)) = Inr evs2"
      "length evs2 \<le> 1"
    using scan_workers_reports [OF enumerate_butlast_bound [OF len]] by blast
  show ?thesis
  proof (cases "clock t - lst \<ge> STATS_INTERVAL")
    case True
    with quiet rows evs2 show ?thesis
      by (rule_tac x = "[StatsTable (clock t) rows]" in exI, rule_tac x = evs2 in exI,
          rule_tac x = "clock t" in exI)
         (simp add: split_def Let_def)
  next
    case False
    with quiet rows evs2 show ?thesis
      by (rule_tac x = "[]" in exI, rule_tac x = evs2 in exI, rule_tac x = lst in exI)
         (simp add: split_def Let_def)
  qed
qed


lemma monitor_loop_interrupted:
  "interrupted t \<Longrightarrow> monitor_loop worker_ports nginx_proc procs lst (t # ts) = (Interrupt, [])"
  by simp

lemma monitor_loop_proxy_dead:
  assumes "\<not> interrupted t" "poll t nginx_proc = Some code"
  shows "\<exists>evs1. monitor_loop worker_ports nginx_proc procs lst (t # ts)
           = (Break, evs1 @ [NginxCrashed code]) \<and> filter is_worker_report evs1 = []"
proof -
  obtain rows where rows: "print_stats_table (requests_get t) worker_ports = Inr rows"
    using print_stats_table_Inr by blast
  show ?thesis
  proof (cases "clock t - lst \<ge> STATS_INTERVAL")
    case True
    with assms rows show ?thesis
      by (rule_tac x = "[StatsTable (clock t) rows]" in exI) (simp add: Let_def)
  next
    case False
    with assms rows show ?thesis
      by (rule_tac x = "[]" in exI) (simp add: Let_def)
  qed
qed

lemma monitor_loop_result:
  assumes len: "length procs = Suc (length worker_ports)"
  shows "(case fst (monitor_loop worker_ports nginx_proc procs lst ts) of
            Break \<Rightarrow> \<exists>t\<in>set ts. poll t nginx_proc \<noteq> None
          | Interrupt \<Rightarrow> \<exists>t\<in>set ts. interrupted t
          | Raise e \<Rightarrow> False
          | Running \<Rightarrow> \<forall>t\<in>set ts. \<not> interrupted t \<and> poll t nginx_proc = None)"
proof (induction ts arbitrary: lst)
  case Nil
  show ?case by simp
next
  case (Cons t ts)
  show ?case
  proof (cases "interrupted t")
    case True
    then show ?thesis by (simp del: monitor_loop.simps add: monitor_loop_interrupted)
  next
    case False
    show ?thesis
    proof (cases "poll t nginx_proc")
      case (Some code)
      with False monitor_loop_proxy_dead [where t = t and nginx_proc = nginx_proc and code = code
          and worker_ports = worker_ports and procs = procs and lst = lst and ts = ts]
      show ?thesis by (auto simp del: monitor_loop.simps)
    next
      case None
      from monitor_loop_step [OF len False None, where lst = lst and ts = ts]
      obtain evs1 evs2 lst' where
        "monitor_loop worker_ports nginx_proc procs lst (t # ts) =
          (fst (monitor_loop worker_ports nginx_proc procs lst' ts),
           evs1 @ evs2 @ snd (monitor_loop worker_ports nginx_proc procs lst' ts))"
        by blast
      with Cons [of lst'] False None show ?thesis
        by (auto simp del: monitor_loop.simps split: loop_result.splits)
    qed
  qed
qed

lemma monitor_loop_reports:
  assumes len: "length procs = Suc (length worker_ports)"
  shows "length (filter is_worker_report (snd (monitor_loop worker_ports nginx_proc procs lst ts)))
           \<le> length ts"
proof (induction ts arbitrary: lst)
  case Nil
  show ?case by simp
next
  case (Cons t ts)
  show ?case
  proof (cases "interrupted t")
    case True
    then show ?thesis by (simp del: monitor_loop.simps add: monitor_loop_interrupted)
  next
    case False
    show ?thesis
    proof (cases "poll t nginx_proc")
      case (Some code)
      with False monitor_loop_proxy_dead [where t = t and nginx_proc = nginx_proc and code = code
          and worker_ports = worker_ports and procs = procs and lst = lst and ts = ts]
      show ?thesis by (auto simp del: monitor_loop.simps)
    next
      case None
      from monitor_loop_step [OF len False None, where lst = lst and ts = ts]
      obtain evs1 evs2 lst' where st:
        "monitor_loop worker_ports nginx_proc procs lst (t # ts) =
          (fst (monitor_loop worker_ports nginx_proc procs lst' ts),
           evs1 @ evs2 @ snd (monitor_loop worker_ports nginx_proc procs lst' ts))"
        "filter is_worker_report evs1 = []" "length evs2 \<le> 1"
        by blast
      have "length (filter is_worker_report evs2) \<le> 1"
        using st(3) length_filter_le [of is_worker_report evs2] by linarith
      with Cons [of lst'] st show ?thesis
        by (simp del: monitor_loop.simps)
    qed
  qed
qed

text \<open>
  C2: with the process list and the port list as \<open>main\<close> builds them (one handle more than
  ports), the loop ends only by \<open>break\<close>, after an iteration that saw the proxy exited, or by
  an interrupt; it never raises. As long as no iteration is interrupted and the proxy runs,
  the loop is still running after any number of iterations, whatever \<open>poll\<close> says of the
  workers. A scan of the workers reports at most one of them, so the reports are at most
  as many as the iterations.
\<close>

theorem monitor_loop_exits:
  assumes "length procs = Suc (length worker_ports)"
  shows "(case fst (monitor_loop worker_ports nginx_proc procs lst ts) of
            Break \<Rightarrow> \<exists>t\<in>set ts. poll t nginx_proc \<noteq> None
          | Interrupt \<Rightarrow> \<exists>t\<in>set ts. interrupted t
          | Raise e \<Rightarrow> False
          | Running \<Rightarrow> \<forall>t\<in>set ts. \<not> interrupted t \<and> poll t nginx_proc = None)
       \<and> ((\<forall>t\<in>set ts. \<not> interrupted t \<and> poll t nginx_proc = None)
            \<longrightarrow> fst (monitor_loop worker_ports nginx_proc procs lst ts) = Running)
       \<and> length (filter is_worker_report (snd (monitor_loop worker_ports nginx_proc procs lst ts)))
            \<le> length ts
       \<and> (\<forall>t xs evs. scan_workers t worker_ports xs = Inr evs \<longrightarrow> length evs \<le> 1)"
proof (intro conjI impI allI)
  fix t xs evs
  assume "scan_workers t worker_ports xs = Inr evs"
  then show "length evs \<le> 1" by (rule scan_workers_at_most_one)
next
  show "(case fst (monitor_loop worker_ports nginx_proc procs lst ts) of
            Break \<Rightarrow> \<exists>t\<in>set ts. poll t nginx_proc \<noteq> None
          | Interrupt \<Rightarrow> \<exists>t\<in>set ts. interrupted t
          | Raise e \<Rightarrow> False
          | Running \<Rightarrow> \<forall>t\<in>set ts. \<not> interrupted t \<and> poll t nginx_proc = None)"
    using assms by (rule monitor_loop_result)
  show "length (filter is_worker_report (snd (monitor_loop worker_ports nginx_proc procs lst ts)))
            \<le> length ts"
    using assms by (rule monitor_loop_reports)
next
  assume q: "\<forall>t\<in>set ts. \<not> interrupted t \<and> poll t nginx_proc = None"
  with monitor_loop_result [OF assms, where nginx_proc = nginx_proc and lst = lst and ts = ts]
  show "fst (monitor_loop worker_ports nginx_proc procs lst ts) = Running"
    by (cases "fst (monitor_loop worker_ports nginx_proc procs lst ts)") auto
qed

theorem monitor_loop_exits_witness:
  "fst (monitor_loop [8000, 8001] 2 [0, 1, 2] 0
         [dead_workers_tick, dead_workers_tick, dead_workers_tick]) = Running
   \<and> filter is_worker_report (snd (monitor_loop [8000, 8001] 2 [0, 1, 2] 0
         [dead_workers_tick, dead_workers_tick, dead_workers_tick]))
       = [WorkerCrashed 0 8000, WorkerCrashed 0 8000, WorkerCrashed 0 8000]"
proof
  have "length [0, 1, 2 :: nat] = Suc (length [8000, 8001 :: int])" by simp
  from monitor_loop_exits [OF this, where nginx_proc = 2 and lst = 0
      and ts = "[dead_workers_tick, dead_workers_tick, dead_workers_tick]"]
  show "fst (monitor_loop [8000, 8001] 2 [0, 1, 2] 0
         [dead_workers_tick, dead_workers_tick, dead_workers_tick]) = Running"
    by (simp add: dead_workers_tick_def del: monitor_loop.simps)
  show "filter is_worker_report (snd (monitor_loop [8000, 8001] 2 [0, 1, 2] 0
         [dead_workers_tick, dead_workers_tick, dead_workers_tick]))
       = [WorkerCrashed 0 8000, WorkerCrashed 0 8000, WorkerCrashed 0 8000]"
    by (simp add: dead_workers_tick_def STATS_INTERVAL_def print_stats_table_def
        get_worker_stats_def get_worker_stats_try_def enumerate_eq_zip Let_def)
qed


lemma refresh_times_append: "refresh_times (xs @ ys) = refresh_times xs @ refresh_times ys"
  by (induction xs rule: refresh_times.induct) simp_all

lemma scan_workers_no_refresh: "scan_workers t wp xs = Inr evs \<Longrightarrow> refresh_times evs = []"
  by (induction xs) (auto split: if_splits)

lemma monitor_loop_spaced:
  "spaced lst (refresh_times (snd (monitor_loop worker_ports nginx_proc procs lst ts)))"
proof (induction ts arbitrary: lst)
  case Nil
  show ?case by simp
next
  case (Cons t ts)
  show ?case
    using Cons [of lst] Cons [of "clock t"]
    by (auto simp: Let_def refresh_times_append split_def
        dest: scan_workers_no_refresh split: sum.splits option.splits)
qed

lemma spawn_workers_trace:
  "\<exists>k\<le>length gs.
     fst (spawn_workers w a gs port wps s) =
       s\<lparr>RUNNING_PROCESSES :=
            RUNNING_PROCESSES s
            @ map index (take k (plan_loop gs (length (RUNNING_PROCESSES s)) port)),
          trace :=
            trace s
            @ map (spawn_event a) (take k (plan_loop gs (length (RUNNING_PROCESSES s)) port))\<rparr>
     \<and> (snd (spawn_workers w a gs port wps s)
           = Inr (wps @ map listen_port (plan_loop gs (length (RUNNING_PROCESSES s)) port))
         \<and> k = length gs
         \<or> snd (spawn_workers w a gs port wps s) = Inl OSError \<and> k < length gs)"
proof (induction gs arbitrary: port wps s)
  case Nil
  show ?case by simp
next
  case (Cons g gs)
  show ?case
  proof (cases "popen_raises w (worker_cmd a port)")
    case True
    then show ?thesis by (intro exI [of _ 0]) simp
  next
    case False
    let ?n = "length (RUNNING_PROCESSES s)"
    let ?s' = "s\<lparr>RUNNING_PROCESSES := RUNNING_PROCESSES s @ [?n],
                   trace := trace s @ [Popen ?n (worker_cmd a port) (Some g) (worker_log port)]\<rparr>"
    from Cons [of "port + 1" "wps @ [port]" ?s']
    obtain k where k: "k \<le> length gs"
      "fst (spawn_workers w a gs (port + 1) (wps @ [port]) ?s') =
         ?s'\<lparr>RUNNING_PROCESSES :=
            RUNNING_PROCESSES ?s' @ map index (take k (plan_loop gs (Suc ?n) (port + 1))),
          trace := trace ?s' @ map (spawn_event a) (take k (plan_loop gs (Suc ?n) (port + 1)))\<rparr>"
      "snd (spawn_workers w a gs (port + 1) (wps @ [port]) ?s')
           = Inr ((wps @ [port]) @ map listen_port (plan_loop gs (Suc ?n) (port + 1)))
         \<and> k = length gs
         \<or> snd (spawn_workers w a gs (port + 1) (wps @ [port]) ?s') = Inl OSError \<and> k < length gs"
      by auto
    from False k show ?thesis
      by (intro exI [of _ "Suc k"]) (auto simp: Let_def spawn_event_def)
  qed
qed


lemma emit_emit: "emit ys (emit xs s) = emit (xs @ ys) s"
  by (simp add: emit_def)

lemma cleanup_loop_eq:
  "cleanup_loop w procs s =
     Inr (emit (map Killpg (filter (\<lambda>h. exit_poll w h = None \<and> \<not> killpg_raises w h) procs)) s)"
proof (induction procs arbitrary: s)
  case Nil
  show ?case by (simp add: emit_def)
next
  case (Cons proc procs)
  show ?case by (simp add: Cons killpg_def emit_emit)
qed

lemma cleanup_processes_eq:
  "cleanup_processes w s =
     Inr (emit ([CleanupStart]
        @ map Killpg (filter (\<lambda>h. exit_poll w h = None \<and> \<not> killpg_raises w h)
            (RUNNING_PROCESSES s))
        @ [CleanupDone]) s)"
  by (simp add: cleanup_processes_def cleanup_loop_eq emit_emit)

lemma spawns_append: "spawns (xs @ ys) = spawns xs @ spawns ys"
  by (induction xs rule: spawns.induct) simp_all

lemma writes_append: "writes (xs @ ys) = writes xs @ writes ys"
  by (induction xs rule: writes.induct) simp_all

lemma spawn_handles_append: "spawn_handles (xs @ ys) = spawn_handles xs @ spawn_handles ys"
  by (induction xs rule: spawn_handles.induct) simp_all

lemma loop_events_inert:
  "list_all loop_event evs \<Longrightarrow>
     spawns evs = [] \<and> writes evs = [] \<and> spawn_handles evs = [] \<and> filter cleanup_event evs = []"
  by (induction evs rule: spawns.induct) simp_all

lemma spawn_events_proj:
  "spawns (map (spawn_event a) ps) = map (spawn_event a) ps"
  "writes (map (spawn_event a) ps) = []"
  "spawn_handles (map (spawn_event a) ps) = map index ps"
  "filter cleanup_event (map (spawn_event a) ps) = []"
  "refresh_times (map (spawn_event a) ps) = []"
  by (induction ps) (simp_all add: spawn_event_def)

lemma scan_workers_loop_events:
  "scan_workers t wp xs = Inr evs \<Longrightarrow> list_all loop_event evs"
  by (induction xs) (auto split: if_splits)

lemma monitor_loop_loop_events:
  "list_all loop_event (snd (monitor_loop worker_ports nginx_proc procs lst ts))"
proof (induction ts arbitrary: lst)
  case Nil
  show ?case by simp
next
  case (Cons t ts)
  show ?case
    using Cons [of lst] Cons [of "clock t"]
    by (auto simp: Let_def split_def dest: scan_workers_loop_events
        split: sum.splits option.splits)
qed

lemma plan_loop_index: "map index (plan_loop gs i p) = [i..<i + length gs]"
proof (induction gs arbitrary: i p)
  case Nil
  show ?case by simp
next
  case (Cons g gs)
  have "[i..<i + length (g # gs)] = i # [Suc i..<Suc i + length gs]"
    by (subst upt_rec) simp
  with Cons [of "Suc i" "p + 1"] show ?case by simp
qed

lemma plan_loop_length: "length (plan_loop gs i p) = length gs"
  by (induction gs arbitrary: i p) simp_all


lemma plan_loop_nth_port:
  "k < length gs \<Longrightarrow> listen_port (plan_loop gs i p ! k) = p + int k"
proof (induction gs arbitrary: i p k)
  case Nil
  then show ?case by simp
next
  case (Cons g gs)
  then show ?case by (cases k) simp_all
qed

lemma main_planned: "plan_placements (arg_gpus a) (arg_start_port a) = plan_loop (GPU_GROUPS a) 0 (START_PORT a)"
  by (simp add: plan_placements_def GPU_GROUPS_def START_PORT_def)

lemma placements_plan_loop: "placements a = plan_loop (GPU_GROUPS a) 0 (START_PORT a)"
  by (simp add: placements_def plan_placements_def GPU_GROUPS_def START_PORT_def)

lemma placements_ports:
  "listen_port ` set (placements a) = (\<lambda>i. START_PORT a + int i) ` set [0..<length (GPU_GROUPS a)]"
proof -
  have "map listen_port (plan_loop (GPU_GROUPS a) 0 (START_PORT a))
      = map (\<lambda>i. START_PORT a + int i) [0..<length (GPU_GROUPS a)]"
    by (rule nth_equalityI) (simp_all add: plan_loop_length plan_loop_nth_port)
  then have "set (map listen_port (plan_loop (GPU_GROUPS a) 0 (START_PORT a)))
      = set (map (\<lambda>i. START_PORT a + int i) [0..<length (GPU_GROUPS a)])"
    by simp
  then show ?thesis
    unfolding placements_plan_loop by (simp only: set_map)
qed

lemma is_port_in_use_cases:
  obtains (raises) "is_port_in_use w port = Inl OverflowError" "port < 0 \<or> 65535 < port"
  | (used) "is_port_in_use w port = Inr True"
  | (free) "is_port_in_use w port = Inr False"
  by (cases "port < 0 \<or> 65535 < port"; cases "port_accepts w port")
     (simp_all add: is_port_in_use_def)

lemma check_ports_loop_aborts:
  "\<exists>i\<in>set ns. is_port_in_use w (START_PORT a + int i) = Inr True \<Longrightarrow>
     check_ports_loop w a ns = Some (SystemExit 1)
     \<or> check_ports_loop w a ns = Some (Uncaught OverflowError)"
proof (induction ns)
  case Nil
  then show ?case by simp
next
  case (Cons n ns)
  show ?case
  proof (cases rule: is_port_in_use_cases [of w "START_PORT a + int n"])
    case raises
    then show ?thesis by (simp add: Let_def)
  next
    case used
    then show ?thesis by (simp add: Let_def)
  next
    case free
    with Cons.prems have "\<exists>i\<in>set ns. is_port_in_use w (START_PORT a + int i) = Inr True"
      by auto
    from Cons.IH [OF this] free show ?thesis by (simp add: Let_def)
  qed
qed

lemma check_ports_loop_exits:
  "\<exists>i\<in>set ns. is_port_in_use w (START_PORT a + int i) = Inr True \<Longrightarrow>
   \<forall>i\<in>set ns. 0 \<le> START_PORT a + int i \<and> START_PORT a + int i \<le> 65535 \<Longrightarrow>
     check_ports_loop w a ns = Some (SystemExit 1)"
proof (induction ns)
  case Nil
  then show ?case by simp
next
  case (Cons n ns)
  show ?case
  proof (cases rule: is_port_in_use_cases [of w "START_PORT a + int n"])
    case raises
    with Cons.prems(2) show ?thesis by auto
  next
    case used
    then show ?thesis by (simp add: Let_def)
  next
    case free
    with Cons.prems have "\<exists>i\<in>set ns. is_port_in_use w (START_PORT a + int i) = Inr True"
      "\<forall>i\<in>set ns. 0 \<le> START_PORT a + int i \<and> START_PORT a + int i \<le> 65535"
      by auto
    from Cons.IH [OF this] free show ?thesis by (simp add: Let_def)
  qed
qed

lemma check_requirements_aborts:
  assumes "\<not> nginx_installed w \<or> is_port_in_use w (NGINX_PORT a) = Inr True
     \<or> (\<exists>p\<in>set (placements a). is_port_in_use w (listen_port p) = Inr True)"
  shows "check_requirements w a = Some (SystemExit 1)
     \<or> check_requirements w a = Some (Uncaught OverflowError)"
proof (cases "\<not> nginx_installed w \<or> is_port_in_use w (NGINX_PORT a) = Inr True")
  case True
  then show ?thesis by (auto simp: check_requirements_def)
next
  case False
  with assms have "\<exists>q\<in>listen_port ` set (placements a). is_port_in_use w q = Inr True"
    by blast
  then have "\<exists>i\<in>set [0..<length (GPU_GROUPS a)].
      is_port_in_use w (START_PORT a + int i) = Inr True"
    unfolding placements_ports by blast
  from check_ports_loop_aborts [OF this] show ?thesis
    by (auto simp: check_requirements_def is_port_in_use_def split: sum.splits if_splits)
qed

lemma check_requirements_exits:
  assumes "\<not> nginx_installed w \<or> is_port_in_use w (NGINX_PORT a) = Inr True
     \<or> (\<exists>p\<in>set (placements a). is_port_in_use w (listen_port p) = Inr True)"
    and "\<not> nginx_installed w
     \<or> (0 \<le> NGINX_PORT a \<and> NGINX_PORT a \<le> 65535
        \<and> (\<forall>p\<in>set (placements a). 0 \<le> listen_port p \<and> listen_port p \<le> 65535))"
  shows "check_requirements w a = Some (SystemExit 1)"
proof (cases "\<not> nginx_installed w \<or> is_port_in_use w (NGINX_PORT a) = Inr True")
  case True
  then show ?thesis by (auto simp: check_requirements_def)
next
  case False
  with assms(1) have "\<exists>q\<in>listen_port ` set (placements a). is_port_in_use w q = Inr True"
    by blast
  then have occ: "\<exists>i\<in>set [0..<length (GPU_GROUPS a)].
      is_port_in_use w (START_PORT a + int i) = Inr True"
    unfolding placements_ports by blast
  from False assms(2) have valid: "0 \<le> NGINX_PORT a \<and> NGINX_PORT a \<le> 65535"
    and "\<forall>q\<in>listen_port ` set (placements a). 0 \<le> q \<and> q \<le> 65535"
    by auto
  then have "\<forall>i\<in>set [0..<length (GPU_GROUPS a)].
      0 \<le> START_PORT a + int i \<and> START_PORT a + int i \<le> 65535"
    unfolding placements_ports by blast
  from check_ports_loop_exits [OF occ this] False valid show ?thesis
    by (auto simp: check_requirements_def is_port_in_use_def)
qed

lemma preflight_run:
  "check_requirements w a = Some out \<Longrightarrow>
     main w a = (out, \<lparr>RUNNING_PROCESSES = [], trace = []\<rparr>)
     \<and> (out \<noteq> StillRunning \<longrightarrow>
          program w a = (out, \<lparr>RUNNING_PROCESSES = [], trace = [CleanupStart, CleanupDone]\<rparr>))"
  by (cases out) (simp_all add: program_def main_def cleanup_processes_eq init_state_def emit_def)

lemma default_plan:
  "map listen_port (placements default_args) = [8000, 8001, 8002, 8003]"
  "map listen_port (placements out_of_range_args) = [8000, 8001, 8002, 8003]"
  by (simp_all add: placements_def default_args_def out_of_range_args_def plan_placements_def
      parse_gpu_groups_def py_strip_def is_space_def py_list_def)

text \<open>
  C6, as stated, fails: the checks run in a fixed order and \<open>connect_ex\<close> raises for a port
  outside 0 to 65535. With \<open>--port 70000\<close> and the port 8000 of the first worker taken, a
  planned worker port is occupied, yet \<open>main\<close> is left by an uncaught \<open>OverflowError\<close>
  from the check of the listen port, not by the \<open>sys.exit(1)\<close> of a failed check.
\<close>

theorem preflight_overflow_counterexample:
  "map listen_port (placements out_of_range_args) = [8000, 8001, 8002, 8003]
   \<and> is_port_in_use busy_worker_world 8000 = Inr True
   \<and> main busy_worker_world out_of_range_args
       = (Uncaught OverflowError, \<lparr>RUNNING_PROCESSES = [], trace = []\<rparr>)"
  by (simp add: default_plan)
     (simp add: main_def check_requirements_def is_port_in_use_def busy_worker_world_def
       busy_port_world_def out_of_range_args_def default_args_def NGINX_PORT_def init_state_def)

text \<open>
  C6, amended: when \<open>nginx\<close> is not installed, or the port of the load balancer is
  occupied, or the port of some placement is occupied, \<open>main\<close> is left inside the
  preflight, by \<open>sys.exit(1)\<close> or by the \<open>OverflowError\<close> of a port check, with no effect
  and an empty process list, so that the whole run consists of a cleanup that has nothing to
  signal. It is left by \<open>sys.exit(1)\<close> when \<open>nginx\<close> is not installed, and when the listen
  port and the ports of all placements lie in 0 to 65535.
\<close>

theorem preflight_abort:
  assumes "\<not> nginx_installed w \<or> is_port_in_use w (NGINX_PORT a) = Inr True
     \<or> (\<exists>p\<in>set (placements a). is_port_in_use w (listen_port p) = Inr True)"
  shows "(\<exists>out. (out = SystemExit 1 \<or> out = Uncaught OverflowError)
            \<and> main w a = (out, \<lparr>RUNNING_PROCESSES = [], trace = []\<rparr>)
            \<and> program w a
                = (out, \<lparr>RUNNING_PROCESSES = [], trace = [CleanupStart, CleanupDone]\<rparr>))
     \<and> (\<not> nginx_installed w
          \<or> (0 \<le> NGINX_PORT a \<and> NGINX_PORT a \<le> 65535
             \<and> (\<forall>p\<in>set (placements a). 0 \<le> listen_port p \<and> listen_port p \<le> 65535))
         \<longrightarrow> main w a = (SystemExit 1, \<lparr>RUNNING_PROCESSES = [], trace = []\<rparr>)
           \<and> program w a
               = (SystemExit 1, \<lparr>RUNNING_PROCESSES = [], trace = [CleanupStart, CleanupDone]\<rparr>))"
proof (intro conjI impI)
  from check_requirements_aborts [OF assms]
  show "\<exists>out. (out = SystemExit 1 \<or> out = Uncaught OverflowError)
            \<and> main w a = (out, \<lparr>RUNNING_PROCESSES = [], trace = []\<rparr>)
            \<and> program w a
                = (out, \<lparr>RUNNING_PROCESSES = [], trace = [CleanupStart, CleanupDone]\<rparr>)"
    using preflight_run [of w a "SystemExit 1"] preflight_run [of w a "Uncaught OverflowError"]
    by auto
next
  assume "\<not> nginx_installed w
          \<or> (0 \<le> NGINX_PORT a \<and> NGINX_PORT a \<le> 65535
             \<and> (\<forall>p\<in>set (placements a). 0 \<le> listen_port p \<and> listen_port p \<le> 65535))"
  from check_requirements_exits [OF assms this]
  show "main w a = (SystemExit 1, \<lparr>RUNNING_PROCESSES = [], trace = []\<rparr>)"
    and "program w a
               = (SystemExit 1, \<lparr>RUNNING_PROCESSES = [], trace = [CleanupStart, CleanupDone]\<rparr>)"
    using preflight_run [of w a "SystemExit 1"] by simp_all
qed

theorem preflight_abort_witness:
  "is_port_in_use busy_port_world (NGINX_PORT default_args) = Inr True
   \<and> 0 \<le> NGINX_PORT default_args \<and> NGINX_PORT default_args \<le> 65535
   \<and> map listen_port (placements default_args) = [8000, 8001, 8002, 8003]
   \<and> program busy_port_world default_args
       = (SystemExit 1, \<lparr>RUNNING_PROCESSES = [], trace = [CleanupStart, CleanupDone]\<rparr>)"
proof -
  have h: "is_port_in_use busy_port_world (NGINX_PORT default_args) = Inr True"
    by (simp add: is_port_in_use_def busy_port_world_def default_args_def NGINX_PORT_def)
  have v: "0 \<le> NGINX_PORT default_args \<and> NGINX_PORT default_args \<le> 65535"
    by (simp add: default_args_def NGINX_PORT_def)
  have "\<forall>q\<in>set (map listen_port (placements default_args)). 0 \<le> q \<and> q \<le> 65535"
    by (simp only: default_plan) simp
  then have "\<forall>p\<in>set (placements default_args). 0 \<le> listen_port p \<and> listen_port p \<le> 65535"
    by simp
  with h v show ?thesis
    using preflight_abort [of busy_port_world default_args] by (simp add: default_plan)
qed

lemma main_cases:
  "(\<exists>out. main w a = (out, \<lparr>RUNNING_PROCESSES = [], trace = []\<rparr>))
   \<or> (\<exists>k<length (placements a). main w a =
         (Uncaught OSError,
          \<lparr>RUNNING_PROCESSES = map index (take k (placements a)),
           trace = setup_trace a (take k (placements a))\<rparr>))
   \<or> main w a =
         (Uncaught OSError,
          \<lparr>RUNNING_PROCESSES = map index (placements a),
           trace = setup_trace a (placements a) @ [config_write a]\<rparr>)
   \<or> main w a =
         (loop_outcome (fst (loop_run w a)),
          \<lparr>RUNNING_PROCESSES = map index (placements a) @ [length (placements a)],
           trace = setup_trace a (placements a) @ [config_write a, proxy_spawn a]
             @ snd (loop_run w a)
             @ (if fst (loop_run w a) = Interrupt then [Stopping] else [])\<rparr>)"
proof (cases "check_requirements w a")
  case (Some c)
  then show ?thesis by (simp add: main_def init_state_def)
next
  case None
  let ?P = "plan_loop (GPU_GROUPS a) 0 (START_PORT a)"
  let ?s0 = "emit [Rmtree LOG_DIR, Makedirs LOG_DIR] init_state"
  let ?sp = "spawn_workers w a (GPU_GROUPS a) (START_PORT a) [] ?s0"
  have s0: "RUNNING_PROCESSES ?s0 = []" "trace ?s0 = [Rmtree LOG_DIR, Makedirs LOG_DIR]"
    by (simp_all add: emit_def init_state_def)
  from spawn_workers_trace [of "GPU_GROUPS a" w a "START_PORT a" "[]" ?s0]
  obtain k where k: "k \<le> length (GPU_GROUPS a)"
    "fst ?sp = \<lparr>RUNNING_PROCESSES = map index (take k ?P), trace = setup_trace a (take k ?P)\<rparr>"
    "snd ?sp = Inr (map listen_port ?P) \<and> k = length (GPU_GROUPS a)
       \<or> snd ?sp = Inl OSError \<and> k < length (GPU_GROUPS a)"
    by (auto simp: s0 setup_trace_def emit_def init_state_def)
  have lenP: "length ?P = length (GPU_GROUPS a)"
    by (simp add: plan_loop_length)
  from k(3) show ?thesis
  proof
    assume "snd ?sp = Inl OSError \<and> k < length (GPU_GROUPS a)"
    with k(2) None have "main w a =
         (Uncaught OSError,
          \<lparr>RUNNING_PROCESSES = map index (take k ?P), trace = setup_trace a (take k ?P)\<rparr>)"
      "k < length ?P"
      by (simp_all add: main_def split_def lenP)
    then show ?thesis unfolding placements_plan_loop by blast
  next
    assume ok: "snd ?sp = Inr (map listen_port ?P) \<and> k = length (GPU_GROUPS a)"
    with k(2) lenP have sp: "?sp = (\<lparr>RUNNING_PROCESSES = map index ?P, trace = setup_trace a ?P\<rparr>,
        Inr (map listen_port ?P))"
      by (simp add: prod_eq_iff)
    show ?thesis
    proof (cases "popen_raises w nginx_cmd")
      case True
      with None sp have "main w a =
         (Uncaught OSError,
          \<lparr>RUNNING_PROCESSES = map index ?P,
           trace = setup_trace a ?P
             @ [WriteFile NGINX_CONF (nginx_config_text (NGINX_PORT a) (map listen_port ?P))]\<rparr>)"
        by (simp add: main_def generate_nginx_config_def emit_def)
      then show ?thesis unfolding placements_plan_loop config_write_def by blast
    next
      case False
      let ?L = "monitor_loop (map listen_port ?P) (length ?P) (map index ?P @ [length ?P]) 0 (ticks w)"
      obtain r evs where loop: "?L = (r, evs)"
        by (cases ?L)
      with None sp False have "main w a =
         (loop_outcome (fst ?L),
          \<lparr>RUNNING_PROCESSES = map index ?P @ [length ?P],
           trace = setup_trace a ?P
             @ [WriteFile NGINX_CONF (nginx_config_text (NGINX_PORT a) (map listen_port ?P)),
                Popen (length ?P) nginx_cmd None NGINX_LOG_OUT]
             @ snd ?L @ (if fst ?L = Interrupt then [Stopping] else [])\<rparr>)"
        by (cases r) (simp_all add: main_def generate_nginx_config_def emit_def Let_def)
      then show ?thesis
        unfolding placements_plan_loop config_write_def proxy_spawn_def loop_run_def by blast
    qed
  qed
qed

lemma main_state [case_names exit spawn_failed proxy_failed loop]:
  obtains out where "main w a = (out, \<lparr>RUNNING_PROCESSES = [], trace = []\<rparr>)"
  | k where "k < length (placements a)"
      "main w a = (Uncaught OSError,
          \<lparr>RUNNING_PROCESSES = map index (take k (placements a)),
           trace = setup_trace a (take k (placements a))\<rparr>)"
  | "main w a = (Uncaught OSError,
          \<lparr>RUNNING_PROCESSES = map index (placements a),
           trace = setup_trace a (placements a) @ [config_write a]\<rparr>)"
  | "main w a = (loop_outcome (fst (loop_run w a)),
          \<lparr>RUNNING_PROCESSES = map index (placements a) @ [length (placements a)],
           trace = setup_trace a (placements a) @ [config_write a, proxy_spawn a]
             @ snd (loop_run w a)
             @ (if fst (loop_run w a) = Interrupt then [Stopping] else [])\<rparr>)"
  using main_cases [of w a] by blast

lemma spawn_workers_ok:
  "\<forall>p\<in>set (plan_loop gs (length (RUNNING_PROCESSES s)) port).
      \<not> popen_raises w (worker_cmd a (listen_port p)) \<Longrightarrow>
   spawn_workers w a gs port wps s =
     (s\<lparr>RUNNING_PROCESSES :=
          RUNNING_PROCESSES s @ map index (plan_loop gs (length (RUNNING_PROCESSES s)) port),
        trace :=
          trace s @ map (spawn_event a) (plan_loop gs (length (RUNNING_PROCESSES s)) port)\<rparr>,
      Inr (wps @ map listen_port (plan_loop gs (length (RUNNING_PROCESSES s)) port)))"
proof (induction gs arbitrary: port wps s)
  case Nil
  show ?case by simp
next
  case (Cons g gs)
  let ?n = "length (RUNNING_PROCESSES s)"
  let ?s' = "s\<lparr>RUNNING_PROCESSES := RUNNING_PROCESSES s @ [?n],
                 trace := trace s @ [Popen ?n (worker_cmd a port) (Some g) (worker_log port)]\<rparr>"
  from Cons.prems have here: "\<not> popen_raises w (worker_cmd a port)"
    and rest: "\<forall>p\<in>set (plan_loop gs (length (RUNNING_PROCESSES ?s')) (port + 1)).
      \<not> popen_raises w (worker_cmd a (listen_port p))"
    by simp_all
  from Cons.IH [OF rest, of "wps @ [port]"] here show ?case
    by (simp add: Let_def spawn_event_def)
qed

lemma main_run:
  assumes pre: "check_requirements w a = None"
    and ok: "\<forall>p\<in>set (placements a). \<not> popen_raises w (worker_cmd a (listen_port p))"
    and proxy: "\<not> popen_raises w nginx_cmd"
  shows "main w a =
         (loop_outcome (fst (loop_run w a)),
          \<lparr>RUNNING_PROCESSES = map index (placements a) @ [length (placements a)],
           trace = setup_trace a (placements a) @ [config_write a, proxy_spawn a]
             @ snd (loop_run w a)
             @ (if fst (loop_run w a) = Interrupt then [Stopping] else [])\<rparr>)"
proof -
  let ?P = "plan_loop (GPU_GROUPS a) 0 (START_PORT a)"
  let ?s0 = "emit [Rmtree LOG_DIR, Makedirs LOG_DIR] init_state"
  have "\<forall>p\<in>set (plan_loop (GPU_GROUPS a) (length (RUNNING_PROCESSES ?s0)) (START_PORT a)).
      \<not> popen_raises w (worker_cmd a (listen_port p))"
    using ok by (simp add: placements_plan_loop emit_def init_state_def)
  from spawn_workers_ok [OF this, of "[]"]
  have sp: "spawn_workers w a (GPU_GROUPS a) (START_PORT a) [] ?s0
      = (\<lparr>RUNNING_PROCESSES = map index ?P, trace = setup_trace a ?P\<rparr>, Inr (map listen_port ?P))"
    by (simp add: emit_def init_state_def setup_trace_def)
  obtain r evs where L: "loop_run w a = (r, evs)" by (cases "loop_run w a")
  with pre proxy sp show ?thesis
    unfolding loop_run_def placements_plan_loop config_write_def proxy_spawn_def
    by (cases r) (simp_all add: main_def generate_nginx_config_def emit_def Let_def plan_loop_length)
qed

lemma program_ended:
  "fst (main w a) \<noteq> StillRunning \<Longrightarrow>
     program w a =
       (fst (main w a),
        emit ([CleanupStart]
              @ map Killpg (filter (\<lambda>h. exit_poll w h = None \<and> \<not> killpg_raises w h)
                  (RUNNING_PROCESSES (snd (main w a))))
              @ [CleanupDone])
          (snd (main w a)))"
  by (cases "main w a"; cases "fst (main w a)")
     (simp_all add: program_def cleanup_processes_eq)

lemma loop_run_inert:
  "spawns (snd (loop_run w a)) = []" "writes (snd (loop_run w a)) = []"
  "spawn_handles (snd (loop_run w a)) = []" "filter cleanup_event (snd (loop_run w a)) = []"
  using loop_events_inert [OF monitor_loop_loop_events] by (simp_all add: loop_run_def)

lemma setup_trace_proj:
  "spawns (setup_trace a ps) = map (spawn_event a) ps"
  "writes (setup_trace a ps) = []"
  "spawn_handles (setup_trace a ps) = map index ps"
  "filter cleanup_event (setup_trace a ps) = []"
  "refresh_times (setup_trace a ps) = []"
  by (simp_all add: setup_trace_def spawn_events_proj)

lemma main_no_cleanup_events: "filter cleanup_event (trace (snd (main w a))) = []"
  by (cases rule: main_state [of w a])
     (simp_all add: setup_trace_proj loop_run_inert config_write_def proxy_spawn_def)

lemma placements_index: "map index (placements a) = [0..<length (placements a)]"
  by (simp add: placements_plan_loop plan_loop_index plan_loop_length)

lemma main_registry:
  "RUNNING_PROCESSES (snd (main w a)) = spawn_handles (trace (snd (main w a)))
   \<and> distinct (RUNNING_PROCESSES (snd (main w a)))"
proof (cases rule: main_state [of w a])
  case (exit c)
  then show ?thesis by simp
next
  case (spawn_failed k)
  have "map index (take k (placements a)) = take k [0..<length (placements a)]"
    by (simp add: placements_index flip: take_map)
  then have "distinct (map index (take k (placements a)))"
    by simp
  with spawn_failed show ?thesis by (simp add: setup_trace_proj)
next
  case proxy_failed
  then show ?thesis
    by (simp add: setup_trace_proj spawn_handles_append config_write_def placements_index)
next
  case loop
  then show ?thesis
    by (simp add: setup_trace_proj spawn_handles_append loop_run_inert config_write_def
        proxy_spawn_def placements_index)
qed

lemma three_workers_check:
  "check_requirements interrupted_world three_workers_args = None"
  "check_requirements live_world three_workers_args = None"
  "check_requirements refresh_world three_workers_args = None"
  by (simp_all add: check_requirements_def is_port_in_use_def refresh_world_def live_world_def
      interrupted_world_def three_workers_args_def GPU_GROUPS_def parse_gpu_groups_def
      py_strip_def is_space_def NGINX_PORT_def START_PORT_def Let_def upt_rec)

lemma three_workers_plan:
  "placements three_workers_args =
     [\<lparr>index = 0, gpu_set = ''0'', listen_port = 8000\<rparr>,
      \<lparr>index = 1, gpu_set = ''1'', listen_port = 8001\<rparr>,
      \<lparr>index = 2, gpu_set = ''2'', listen_port = 8002\<rparr>]"
  by (simp add: placements_def plan_placements_def three_workers_args_def parse_gpu_groups_def
      py_strip_def is_space_def)

lemma three_workers_loop: "loop_run interrupted_world three_workers_args = (Interrupt, [])"
  by (simp add: loop_run_def interrupted_world_def interrupt_tick_def)

lemma three_workers_main:
  "fst (main interrupted_world three_workers_args) = Returned
   \<and> RUNNING_PROCESSES (snd (main interrupted_world three_workers_args)) = [0, 1, 2, 3]"
proof -
  have "\<not> popen_raises interrupted_world cmd" for cmd
    by (simp add: interrupted_world_def)
  then show ?thesis
    using main_run [of interrupted_world three_workers_args]
    by (simp add: three_workers_check three_workers_loop three_workers_plan)
qed


lemma live_world_main:
  "fst (main live_world three_workers_args) = Returned
   \<and> RUNNING_PROCESSES (snd (main live_world three_workers_args)) = [0, 1, 2, 3]"
proof -
  have "\<not> popen_raises live_world cmd" for cmd
    by (simp add: live_world_def interrupted_world_def)
  moreover have "loop_run live_world three_workers_args = (Interrupt, [])"
    by (simp add: loop_run_def live_world_def interrupted_world_def interrupt_tick_def)
  ultimately show ?thesis
    using main_run [of live_world three_workers_args]
    by (simp add: three_workers_check three_workers_plan)
qed

text \<open>
  C1, as stated, fails: \<open>cleanup_processes\<close> skips a process whose \<open>poll()\<close> is not
  \<open>None\<close>. With three workers and the proxy registered and the worker with handle 1
  exited, handle 1 is in the process list and is never signalled.
\<close>

theorem cleanup_skips_exited_counterexample:
  "1 \<in> set (RUNNING_PROCESSES (snd (program interrupted_world three_workers_args)))
   \<and> Killpg 1 \<notin> set (trace (snd (program interrupted_world three_workers_args)))"
proof -
  have "Killpg 1 \<notin> set (filter cleanup_event (trace (snd (main interrupted_world three_workers_args))))"
    by (simp only: main_no_cleanup_events) simp
  then have "Killpg 1 \<notin> set (trace (snd (main interrupted_world three_workers_args)))"
    by simp
  moreover have "fst (main interrupted_world three_workers_args) \<noteq> StillRunning"
    using three_workers_main by simp
  ultimately show ?thesis
    using three_workers_main
    by (simp add: program_ended emit_def) (auto simp: interrupted_world_def)
qed

text \<open>
  C1, amended: when \<open>main\<close> has been left, the run is \<open>main\<close> followed by one cleanup, which
  signals, once each and in the order of the process list, the process groups of the
  handles whose process has not exited and for which the signalling does not raise
  \<open>OSError\<close>. \<open>main\<close> itself has no cleanup effect, its process list holds every handle it
  started, each once, and \<open>cleanup_processes\<close> never raises.
\<close>

theorem cleanup_signals_live:
  "(fst (main w a) \<noteq> StillRunning \<longrightarrow>
      program w a =
        (fst (main w a),
         emit ([CleanupStart]
               @ map Killpg (filter (\<lambda>h. exit_poll w h = None \<and> \<not> killpg_raises w h)
                   (RUNNING_PROCESSES (snd (main w a))))
               @ [CleanupDone])
           (snd (main w a))))
   \<and> filter cleanup_event (trace (snd (main w a))) = []
   \<and> RUNNING_PROCESSES (snd (main w a)) = spawn_handles (trace (snd (main w a)))
   \<and> distinct (RUNNING_PROCESSES (snd (main w a)))
   \<and> (\<exists>s'. cleanup_processes w s = Inr s')"
proof (intro conjI impI)
  assume "fst (main w a) \<noteq> StillRunning"
  then show "program w a =
        (fst (main w a),
         emit ([CleanupStart]
               @ map Killpg (filter (\<lambda>h. exit_poll w h = None \<and> \<not> killpg_raises w h)
                   (RUNNING_PROCESSES (snd (main w a))))
               @ [CleanupDone])
           (snd (main w a)))"
    by (rule program_ended)
next
  show "filter cleanup_event (trace (snd (main w a))) = []"
    by (rule main_no_cleanup_events)
next
  show "RUNNING_PROCESSES (snd (main w a)) = spawn_handles (trace (snd (main w a)))"
    using main_registry [of w a] by blast
next
  show "distinct (RUNNING_PROCESSES (snd (main w a)))"
    using main_registry [of w a] by blast
next
  show "\<exists>s'. cleanup_processes w s = Inr s'"
    by (simp add: cleanup_processes_eq)
qed

theorem cleanup_signals_live_witness:
  "fst (main live_world three_workers_args) \<noteq> StillRunning
   \<and> filter cleanup_event (trace (snd (program live_world three_workers_args)))
       = [CleanupStart, Killpg 0, Killpg 1, Killpg 2, Killpg 3, CleanupDone]"
proof -
  have h: "fst (main live_world three_workers_args) \<noteq> StillRunning"
    using live_world_main by simp
  with cleanup_signals_live [of live_world three_workers_args]
  have "program live_world three_workers_args =
        (fst (main live_world three_workers_args),
         emit ([CleanupStart]
               @ map Killpg (filter (\<lambda>h. exit_poll live_world h = None \<and> \<not> killpg_raises live_world h)
                   (RUNNING_PROCESSES (snd (main live_world three_workers_args))))
               @ [CleanupDone])
           (snd (main live_world three_workers_args)))"
    by blast
  with h live_world_main show ?thesis
    by (simp add: emit_def main_no_cleanup_events)
       (simp add: live_world_def interrupted_world_def)
qed

text \<open>
  C9: in every run, either no file is written and the processes started are the workers of
  the first \<open>k\<close> placements, registered in that order; or the effects are the setup with
  the start of every worker in placement order, then the one writing of the proxy
  configuration rendered from all worker ports, then no further writing, and the proxy is
  started after it (if its start does not fail) and registered last.
\<close>

theorem spawn_order:
  "map index (placements a) = [0..<length (placements a)]
   \<and> ((writes (trace (snd (main w a))) = []
        \<and> (\<exists>k\<le>length (placements a).
             spawns (trace (snd (main w a))) = map (spawn_event a) (take k (placements a))
             \<and> RUNNING_PROCESSES (snd (main w a)) = map index (take k (placements a))))
      \<or> (\<exists>post.
           trace (snd (main w a)) =
             [Rmtree LOG_DIR, Makedirs LOG_DIR] @ map (spawn_event a) (placements a)
             @ config_write a # post
           \<and> writes post = []
           \<and> (post = [] \<and> RUNNING_PROCESSES (snd (main w a)) = map index (placements a)
              \<or> (\<exists>post'. post = proxy_spawn a # post' \<and> spawns post' = [])
                \<and> RUNNING_PROCESSES (snd (main w a))
                    = map index (placements a) @ [length (placements a)])))"
proof (intro conjI)
  show "map index (placements a) = [0..<length (placements a)]"
    by (rule placements_index)
  show "(writes (trace (snd (main w a))) = []
        \<and> (\<exists>k\<le>length (placements a).
             spawns (trace (snd (main w a))) = map (spawn_event a) (take k (placements a))
             \<and> RUNNING_PROCESSES (snd (main w a)) = map index (take k (placements a))))
      \<or> (\<exists>post.
           trace (snd (main w a)) =
             [Rmtree LOG_DIR, Makedirs LOG_DIR] @ map (spawn_event a) (placements a)
             @ config_write a # post
           \<and> writes post = []
           \<and> (post = [] \<and> RUNNING_PROCESSES (snd (main w a)) = map index (placements a)
              \<or> (\<exists>post'. post = proxy_spawn a # post' \<and> spawns post' = [])
                \<and> RUNNING_PROCESSES (snd (main w a))
                    = map index (placements a) @ [length (placements a)]))"
  proof (cases rule: main_state [of w a])
    case (exit c)
    then have "writes (trace (snd (main w a))) = []
        \<and> spawns (trace (snd (main w a))) = map (spawn_event a) (take 0 (placements a))
        \<and> RUNNING_PROCESSES (snd (main w a)) = map index (take 0 (placements a))"
      by simp
    then show ?thesis by blast
  next
    case (spawn_failed k)
    then have "writes (trace (snd (main w a))) = []
        \<and> spawns (trace (snd (main w a))) = map (spawn_event a) (take k (placements a))
        \<and> RUNNING_PROCESSES (snd (main w a)) = map index (take k (placements a))"
      "k \<le> length (placements a)"
      by (simp_all add: setup_trace_proj)
    then show ?thesis by blast
  next
    case proxy_failed
    then have "trace (snd (main w a)) =
             [Rmtree LOG_DIR, Makedirs LOG_DIR] @ map (spawn_event a) (placements a)
             @ config_write a # []
           \<and> writes [] = []
           \<and> RUNNING_PROCESSES (snd (main w a)) = map index (placements a)"
      by (simp add: setup_trace_def)
    then show ?thesis by blast
  next
    case loop
    let ?post' = "snd (loop_run w a) @ (if fst (loop_run w a) = Interrupt then [Stopping] else [])"
    from loop have "trace (snd (main w a)) =
             [Rmtree LOG_DIR, Makedirs LOG_DIR] @ map (spawn_event a) (placements a)
             @ config_write a # proxy_spawn a # ?post'"
      "writes (proxy_spawn a # ?post') = []"
      "spawns ?post' = []"
      "RUNNING_PROCESSES (snd (main w a)) = map index (placements a) @ [length (placements a)]"
      by (simp_all add: setup_trace_def writes_append spawns_append loop_run_inert proxy_spawn_def)
    then show ?thesis by blast
  qed
qed

lemma main_refresh_times:
  "refresh_times (trace (snd (main w a))) = [] 
   \<or> refresh_times (trace (snd (main w a))) = refresh_times (snd (loop_run w a))"
  by (cases rule: main_state [of w a])
     (simp_all add: refresh_times_append setup_trace_proj config_write_def proxy_spawn_def)

lemma monitor_loop_first:
  assumes "\<not> interrupted t" "STATS_INTERVAL \<le> clock t"
  shows "\<exists>rows evs. snd (monitor_loop worker_ports nginx_proc procs 0 (t # ts))
                     = StatsTable (clock t) rows # evs
                 \<and> map fst rows = worker_ports"
proof -
  obtain rows where rows: "print_stats_table (requests_get t) worker_ports = Inr rows"
      "map fst rows = worker_ports"
    using print_stats_table_Inr by blast
  with assms show ?thesis
    by (auto simp: Let_def split_def split: option.splits sum.splits)
qed

text \<open>
  C10: \<open>main\<close> enters the loop with \<open>last_stats_time = 0\<close>. In every run that reaches the
  loop (the preflight passes, the workers and the proxy start) and whose first iteration is
  not interrupted and reads a clock of at least \<open>STATS_INTERVAL\<close> (any time after the first
  five seconds of the epoch), the first effect after the start of the proxy is the stats
  table of the first iteration, with a row for every worker port; it is the first refresh
  of the run, and each later refresh is at least \<open>STATS_INTERVAL\<close> after the one before.
  In every run of \<open>main\<close> the refreshes are spaced in this way.
\<close>

theorem first_refresh:
  assumes "check_requirements w a = None"
    and "\<forall>p\<in>set (placements a). \<not> popen_raises w (worker_cmd a (listen_port p))"
    and "\<not> popen_raises w nginx_cmd"
    and "ticks w = t # ts" and "\<not> interrupted t" and "STATS_INTERVAL \<le> clock t"
  shows "(\<exists>rows post.
            trace (snd (main w a)) =
              setup_trace a (placements a) @ [config_write a, proxy_spawn a]
              @ StatsTable (clock t) rows # post
            \<and> map fst rows = map listen_port (placements a)
            \<and> refresh_times (trace (snd (main w a))) = clock t # refresh_times post
            \<and> spaced (clock t) (refresh_times post))
     \<and> spaced 0 (refresh_times (trace (snd (main w' a'))))"
proof
  let ?ports = "map listen_port (placements a)"
  let ?n = "length (placements a)"
  let ?procs = "map index (placements a) @ [?n]"
  let ?stop = "if fst (loop_run w a) = Interrupt then [Stopping] else []"
  have run: "loop_run w a = monitor_loop ?ports ?n ?procs 0 (t # ts)"
    using assms(4) by (simp add: loop_run_def)
  from monitor_loop_first [OF assms(5,6), of ?ports ?n ?procs ts]
  obtain rows evs where first: "snd (loop_run w a) = StatsTable (clock t) rows # evs"
      "map fst rows = ?ports"
    unfolding run by blast
  have "spaced 0 (refresh_times (snd (loop_run w a)))"
    unfolding run by (rule monitor_loop_spaced)
  with first have sp: "spaced (clock t) (refresh_times evs)"
    by simp
  have tr: "trace (snd (main w a)) =
      setup_trace a (placements a) @ [config_write a, proxy_spawn a]
      @ StatsTable (clock t) rows # (evs @ ?stop)"
    using main_run [OF assms(1,2,3)] first by simp
  have rt: "refresh_times (evs @ ?stop) = refresh_times evs"
    by (simp add: refresh_times_append)
  have "refresh_times (trace (snd (main w a))) = clock t # refresh_times (evs @ ?stop)"
    unfolding tr
    by (simp add: refresh_times_append setup_trace_proj config_write_def proxy_spawn_def)
  with tr first sp rt show "\<exists>rows post.
            trace (snd (main w a)) =
              setup_trace a (placements a) @ [config_write a, proxy_spawn a]
              @ StatsTable (clock t) rows # post
            \<and> map fst rows = map listen_port (placements a)
            \<and> refresh_times (trace (snd (main w a))) = clock t # refresh_times post
            \<and> spaced (clock t) (refresh_times post)"
    by metis
next
  show "spaced 0 (refresh_times (trace (snd (main w' a'))))"
    using main_refresh_times [of w' a'] monitor_loop_spaced [where lst = 0]
    by (auto simp: loop_run_def)
qed

theorem first_refresh_witness:
  "check_requirements refresh_world three_workers_args = None
   \<and> \<not> popen_raises refresh_world nginx_cmd
   \<and> ticks refresh_world = [quiet_tick, interrupt_tick]
   \<and> \<not> interrupted quiet_tick \<and> STATS_INTERVAL \<le> clock quiet_tick
   \<and> (\<exists>rows post.
         trace (snd (main refresh_world three_workers_args)) =
           setup_trace three_workers_args (placements three_workers_args)
           @ [config_write three_workers_args, proxy_spawn three_workers_args]
           @ StatsTable 1700000000 rows # post
         \<and> map fst rows = [8000, 8001, 8002])"
proof -
  have popen: "\<not> popen_raises refresh_world cmd" for cmd
    by (simp add: refresh_world_def live_world_def interrupted_world_def)
  have tk: "ticks refresh_world = [quiet_tick, interrupt_tick]"
    by (simp add: refresh_world_def)
  have q: "\<not> interrupted quiet_tick" "STATS_INTERVAL \<le> clock quiet_tick"
      "clock quiet_tick = 1700000000"
    by (simp_all add: quiet_tick_def STATS_INTERVAL_def)
  have "\<forall>p\<in>set (placements three_workers_args).
      \<not> popen_raises refresh_world (worker_cmd three_workers_args (listen_port p))"
    using popen by simp
  from first_refresh [OF three_workers_check(3) this popen tk q(1,2), THEN conjunct1]
  have "\<exists>rows post.
         trace (snd (main refresh_world three_workers_args)) =
           setup_trace three_workers_args (placements three_workers_args)
           @ [config_write three_workers_args, proxy_spawn three_workers_args]
           @ StatsTable 1700000000 rows # post
         \<and> map fst rows = [8000, 8001, 8002]"
    unfolding q(3) by (auto simp: three_workers_plan)
  with popen tk q three_workers_check(3) show ?thesis by simp
qed

end
